theory Spec2Isabelle
  imports Complex_Main "HOL-Library.Sublist"
begin

section \<open>JavaScript values\<close>

text \<open>
  The client's options, its shard list and the arguments of its methods are untyped
  JavaScript values. A number is an IEEE double: a finite value (every finite double is a
  rational), NaN, or one of the infinities. The two zeros are one value here; the code
  under study never tells them apart (\<^verbatim>\<open>-0 >= 0\<close>, \<^verbatim>\<open>-0 === 0\<close>, and a Set stores
  \<^verbatim>\<open>-0\<close> as \<^verbatim>\<open>+0\<close>). Symbols and BigInts are left out.
\<close>

datatype jsnum = Fin rat | NaN | PosInf | NegInf

datatype jsval =
    JUndefined
  | JNull
  | JBool bool
  | JNum jsnum
  | JStr string
  | JArr "jsval list"
  | JFun
  | JObj

text \<open>\<^verbatim>\<open>typeof v\<close>.\<close>

fun typeof :: "jsval \<Rightarrow> string" where
  "typeof JUndefined = ''undefined''"
| "typeof JNull = ''object''"
| "typeof (JBool _) = ''boolean''"
| "typeof (JNum _) = ''number''"
| "typeof (JStr _) = ''string''"
| "typeof (JArr _) = ''object''"
| "typeof JFun = ''function''"
| "typeof JObj = ''object''"

text \<open>ToBoolean: what \<^verbatim>\<open>!v\<close>, \<^verbatim>\<open>v && ...\<close> and \<^verbatim>\<open>if (v)\<close> test.\<close>

fun truthy :: "jsval \<Rightarrow> bool" where
  "truthy JUndefined = False"
| "truthy JNull = False"
| "truthy (JBool b) = b"
| "truthy (JNum (Fin x)) = (x \<noteq> 0)"
| "truthy (JNum NaN) = False"
| "truthy (JNum PosInf) = True"
| "truthy (JNum NegInf) = True"
| "truthy (JStr s) = (s \<noteq> [])"
| "truthy (JArr _) = True"
| "truthy JFun = True"
| "truthy JObj = True"

fun isArray :: "jsval \<Rightarrow> bool" where
  "isArray (JArr _) = True"
| "isArray _ = False"

text \<open>
  \<^verbatim>\<open>a === b\<close>. Primitives compare by value and NaN equals nothing. Arrays, functions and
  objects compare by identity, which this model does not carry: two of them are taken to
  be distinct objects.
\<close>

fun strict_eq :: "jsval \<Rightarrow> jsval \<Rightarrow> bool" where
  "strict_eq JUndefined JUndefined = True"
| "strict_eq JNull JNull = True"
| "strict_eq (JBool a) (JBool b) = (a = b)"
| "strict_eq (JNum a) (JNum b) = (a \<noteq> NaN \<and> a = b)"
| "strict_eq (JStr a) (JStr b) = (a = b)"
| "strict_eq _ _ = False"

subsection \<open>Number primitives\<close>

text \<open>\<^verbatim>\<open>isNaN(n)\<close>, \<^verbatim>\<open>n >= 0\<close> and \<^verbatim>\<open>n < Infinity\<close> on a number.\<close>

fun num_isNaN :: "jsnum \<Rightarrow> bool" where
  "num_isNaN NaN = True"
| "num_isNaN _ = False"

fun num_ge0 :: "jsnum \<Rightarrow> bool" where
  "num_ge0 (Fin x) = (0 \<le> x)"
| "num_ge0 PosInf = True"
| "num_ge0 _ = False"

fun num_lt_Infinity :: "jsnum \<Rightarrow> bool" where
  "num_lt_Infinity (Fin x) = True"
| "num_lt_Infinity NegInf = True"
| "num_lt_Infinity _ = False"

text \<open>Truncation towards zero, the first step of ToInt32 and of ToLength.\<close>

definition trunc :: "rat \<Rightarrow> int" where
  "trunc x = (if 0 \<le> x then \<lfloor>x\<rfloor> else \<lceil>x\<rceil>)"

text \<open>
  ToInt32, the conversion \<^verbatim>\<open>n | 0\<close> applies: NaN and the infinities give 0, a finite
  number is truncated, reduced modulo \<open>2^32\<close> and read as a signed 32-bit integer.
\<close>

definition ToInt32 :: "jsnum \<Rightarrow> int" where
  "ToInt32 n =
     (case n of
        Fin x \<Rightarrow> (let k = trunc x mod 2 ^ 32 in if 2 ^ 31 \<le> k then k - 2 ^ 32 else k)
      | _ \<Rightarrow> 0)"

definition bitor0 :: "jsnum \<Rightarrow> jsnum" where
  "bitor0 n = Fin (of_int (ToInt32 n))"

section \<open>Shard list resolution (constructor, the filter and the Set)\<close>

text \<open>
  The predicate of \<^verbatim>\<open>this.options.shards.filter(item => !isNaN(item) && item >= 0 &&
  item < Infinity && item === (item | 0))\<close>. \<^verbatim>\<open>item | 0\<close> is always a number, and
  \<^verbatim>\<open>===\<close> never equates a number with a value of another type, so the last conjunct,
  and with it the predicate, is false on every item that is not a number.
\<close>

fun shard_item_ok :: "jsval \<Rightarrow> bool" where
  "shard_item_ok (JNum n) =
     (\<not> num_isNaN n \<and> num_ge0 n \<and> num_lt_Infinity n \<and> strict_eq (JNum n) (JNum (bitor0 n)))"
| "shard_item_ok _ = False"

text \<open>
  A JavaScript \<^verbatim>\<open>Set\<close> keeps its elements in insertion order; adding an element that is
  already there changes nothing. It is the list of its elements, in that order.
\<close>

definition Set_add :: "'a list \<Rightarrow> 'a \<Rightarrow> 'a list" where
  "Set_add s x = (if x \<in> set s then s else s @ [x])"

definition new_Set :: "'a list \<Rightarrow> 'a list" where
  "new_Set xs = foldl Set_add [] xs"

text \<open>\<^verbatim>\<open>[...new Set(shards.filter(...))]\<close>, lines 84 to 88.\<close>

definition resolve_shard_list :: "jsval list \<Rightarrow> jsval list" where
  "resolve_shard_list shards = new_Set (filter shard_item_ok shards)"

text \<open>
  The specification's words for the elements kept: the finite non-negative integers.
\<close>

fun finite_nonneg_integer :: "jsval \<Rightarrow> bool" where
  "finite_nonneg_integer (JNum (Fin x)) = (0 \<le> x \<and> x = of_int \<lfloor>x\<rfloor>)"
| "finite_nonneg_integer _ = False"

text \<open>What the code keeps: the non-negative integers that fit a signed 32-bit integer.\<close>

fun nonneg_int32 :: "jsval \<Rightarrow> bool" where
  "nonneg_int32 (JNum (Fin x)) = (0 \<le> x \<and> x = of_int \<lfloor>x\<rfloor> \<and> x < 2 ^ 31)"
| "nonneg_int32 _ = False"

section \<open>Strings and the regular expressions of the source\<close>

text \<open>
  A JavaScript string is a sequence of UTF-16 code units. The model uses \<^typ>\<open>string\<close>:
  the code units below 256. Every character the source's patterns name is ASCII.
\<close>

definition code_unit :: "char \<Rightarrow> nat" where
  "code_unit c = of_char c"

text \<open>
  Matching under the \<^verbatim>\<open>i\<close> flag compares canonicalised characters. For the ASCII
  characters of the patterns this is equality up to the case of the letters A to Z; a
  character outside ASCII is never canonicalised to an ASCII one.
\<close>

definition fold_case :: "nat \<Rightarrow> nat" where
  "fold_case n = (if 65 \<le> n \<and> n \<le> 90 then n + 32 else n)"

definition ci_eq :: "char \<Rightarrow> char \<Rightarrow> bool" where
  "ci_eq a c = (fold_case (code_unit a) = fold_case (code_unit c))"

text \<open>\<^verbatim>\<open>\s\<close>: tab, line feed, vertical tab, form feed, carriage return, space, no-break space.\<close>

definition is_space :: "char \<Rightarrow> bool" where
  "is_space c = (code_unit c \<in> {9, 10, 11, 12, 13, 32, 160})"

text \<open>\<^verbatim>\<open>\d\<close>, \<^verbatim>\<open>[a-z0-9]\<close> and \<^verbatim>\<open>\w\<close>.\<close>

definition is_digit :: "char \<Rightarrow> bool" where
  "is_digit c = (48 \<le> code_unit c \<and> code_unit c \<le> 57)"

definition is_lower_alnum :: "char \<Rightarrow> bool" where
  "is_lower_alnum c = ((97 \<le> code_unit c \<and> code_unit c \<le> 122) \<or> is_digit c)"

definition is_word :: "char \<Rightarrow> bool" where
  "is_word c =
     ((97 \<le> code_unit c \<and> code_unit c \<le> 122) \<or> (65 \<le> code_unit c \<and> code_unit c \<le> 90)
      \<or> is_digit c \<or> code_unit c = 95)"

text \<open>The line terminators \<^verbatim>\<open>.\<close> does not match (those below 256).\<close>

definition is_line_terminator :: "char \<Rightarrow> bool" where
  "is_line_terminator c = (code_unit c = 10 \<or> code_unit c = 13)"

text \<open>
  A pattern without repetition is a list of items: a literal, compared up to case, or
  the dot. \<open>match_items\<close> matches it at the start of a string and returns what is left.
\<close>

datatype ritem = Lit char | Dot

fun match_items :: "ritem list \<Rightarrow> string \<Rightarrow> string option" where
  "match_items [] s = Some s"
| "match_items (i # is) [] = None"
| "match_items (Lit a # is) (c # cs) = (if ci_eq a c then match_items is cs else None)"
| "match_items (Dot # is) (c # cs) = (if is_line_terminator c then None else match_items is cs)"

text \<open>The text of a pattern with \<^verbatim>\<open>.\<close> unescaped, and with every character literal.\<close>

definition dotted :: "string \<Rightarrow> ritem list" where
  "dotted p = map (\<lambda>c. if c = CHR ''.'' then Dot else Lit c) p"

definition literal :: "string \<Rightarrow> ritem list" where
  "literal p = map Lit p"

text \<open>
  \<^verbatim>\<open>re.test(s)\<close> of an unanchored pattern whose \<^verbatim>\<open>lastIndex\<close> is 0: the pattern matches
  at some position of \<open>s\<close>. \<open>m\<close> says whether it matches at the start of a string.
\<close>

fun regex_test :: "(string \<Rightarrow> bool) \<Rightarrow> string \<Rightarrow> bool" where
  "regex_test m [] = m []"
| "regex_test m (c # cs) = (m (c # cs) \<or> regex_test m cs)"

text \<open>
  \<^verbatim>\<open>s.match(re)\<close> of a global pattern: the matches from left to right, each search
  starting where the last match ended. \<open>m\<close> gives the length of the match at the start
  of a string; the counter skips the characters a match has consumed. The patterns used
  here never match the empty string.
\<close>

fun match_all :: "(string \<Rightarrow> nat option) \<Rightarrow> nat \<Rightarrow> string \<Rightarrow> string list" where
  "match_all m k [] = []"
| "match_all m k (c # cs) =
     (if 0 < k then match_all m (k - 1) cs
      else case m (c # cs) of
             Some n \<Rightarrow> take n (c # cs) # match_all m (n - 1) cs
           | None \<Rightarrow> match_all m 0 cs)"

text \<open>\<^verbatim>\<open>s.replace(re, '')\<close> of a global pattern: every match is removed.\<close>

fun remove_all :: "(string \<Rightarrow> nat option) \<Rightarrow> nat \<Rightarrow> string \<Rightarrow> string" where
  "remove_all m k [] = []"
| "remove_all m k (c # cs) =
     (if 0 < k then remove_all m (k - 1) cs
      else case m (c # cs) of
             Some n \<Rightarrow> remove_all m (n - 1) cs
           | None \<Rightarrow> c # remove_all m 0 cs)"

subsection \<open>\<^verbatim>\<open>/^(Bot|Bearer)\s*/i\<close> (login)\<close>

text \<open>\<^verbatim>\<open>token.replace(/^(Bot|Bearer)\s*/i, '')\<close>, line 331.\<close>

definition strip_scheme :: "string \<Rightarrow> string" where
  "strip_scheme t =
     (case match_items (literal ''Bot'') t of
        Some rest \<Rightarrow> dropWhile is_space rest
      | None \<Rightarrow>
          (case match_items (literal ''Bearer'') t of
             Some rest \<Rightarrow> dropWhile is_space rest
           | None \<Rightarrow> t))"

subsection \<open>\<^verbatim>\<open>/(\d{6})/g\<close> and \<^verbatim>\<open>/([a-z0-9]{4})-([a-z0-9]{4})/g\<close> (normalLogin)\<close>

definition normal2fa_at :: "string \<Rightarrow> bool" where
  "normal2fa_at s = (6 \<le> length s \<and> list_all is_digit (take 6 s))"

definition backupCode_at :: "string \<Rightarrow> bool" where
  "backupCode_at s =
     (9 \<le> length s \<and> list_all is_lower_alnum (take 4 s) \<and> s ! 4 = CHR ''-''
      \<and> list_all is_lower_alnum (take 4 (drop 5 s)))"

text \<open>
  Both expressions are created by the call that tests them, so \<^verbatim>\<open>lastIndex\<close> is 0 when
  \<^verbatim>\<open>test\<close> runs.
\<close>

definition normal2fa_test :: "string \<Rightarrow> bool" where
  "normal2fa_test s = regex_test normal2fa_at s"

definition backupCode_test :: "string \<Rightarrow> bool" where
  "backupCode_test s = regex_test backupCode_at s"

subsection \<open>The gift patterns (redeemNitro)\<close>

text \<open>
  \<^verbatim>\<open>/(discord.gift|discord.com|discordapp.com\/gifts)\/\w{16,25}/gim\<close>. After the group
  come a slash and 16 to 25 word characters, taken greedily; nothing follows, so the
  match takes as many as there are, up to 25. An alternative whose tail fails gives way
  to the next one.
\<close>

definition gift_tail :: "string \<Rightarrow> nat option" where
  "gift_tail s =
     (case s of
        [] \<Rightarrow> None
      | c # cs \<Rightarrow>
          if c = CHR ''/'' then
            (let n = length (takeWhile is_word cs)
             in if 16 \<le> n then Some (1 + min n 25) else None)
          else None)"

fun first_alternative :: "ritem list list \<Rightarrow> string \<Rightarrow> nat option" where
  "first_alternative [] s = None"
| "first_alternative (a # as) s =
     (case match_items a s of
        Some rest \<Rightarrow>
          (case gift_tail rest of
             Some n \<Rightarrow> Some (length a + n)
           | None \<Rightarrow> first_alternative as s)
      | None \<Rightarrow> first_alternative as s)"

definition gift_at :: "string \<Rightarrow> nat option" where
  "gift_at s =
     first_alternative
       [dotted ''discord.gift'', dotted ''discord.com'', dotted ''discordapp.com'' @ literal ''/gifts'']
       s"

text \<open>\<^verbatim>\<open>nitro.match(regex.gift)\<close>: null when nothing matches.\<close>

definition match_gift :: "string \<Rightarrow> string list option" where
  "match_gift s = (let ms = match_all gift_at 0 s in if ms = [] then None else Some ms)"

text \<open>\<^verbatim>\<open>/(discord\.gift\/|discord\.com\/gifts\/|discordapp\.com\/gifts\/)/gim\<close>.\<close>

fun first_literal :: "string list \<Rightarrow> string \<Rightarrow> nat option" where
  "first_literal [] s = None"
| "first_literal (p # ps) s =
     (case match_items (literal p) s of
        Some rest \<Rightarrow> Some (length p)
      | None \<Rightarrow> first_literal ps s)"

definition url_at :: "string \<Rightarrow> nat option" where
  "url_at s = first_literal [''discord.gift/'', ''discord.com/gifts/'', ''discordapp.com/gifts/''] s"

text \<open>\<^verbatim>\<open>code.replace(regex.url, '')\<close>.\<close>

definition strip_url :: "string \<Rightarrow> string" where
  "strip_url code = remove_all url_at 0 code"

section \<open>The client\<close>

subsection \<open>Errors, requests and the trace\<close>

text \<open>
  The library's own errors carry a message key (\<^verbatim>\<open>new Error('TOKEN_INVALID')\<close>,
  \<^verbatim>\<open>new TypeError('CLIENT_INVALID_OPTION', 'shardCount', ...)\<close>); the second argument of
  a TypeError is the name of the option, or empty. \<open>Native\<close> is an error of a built-in
  of the runtime (\<^verbatim>\<open>new URL\<close>, \<^verbatim>\<open>JSON.parse\<close>, \<^verbatim>\<open>Array.from\<close>). \<open>Thrown\<close> is an error
  value raised by a collaborator: the transport, the REST layer, a cleanup function.
\<close>

datatype error =
    DjsError string
  | DjsTypeError string string
  | DjsRangeError string
  | Native string
  | Thrown nat

text \<open>The names the specification gives these errors.\<close>

abbreviation InvalidTokenError :: error where
  "InvalidTokenError \<equiv> DjsError ''TOKEN_INVALID''"

abbreviation MfaRequiredError :: error where
  "MfaRequiredError \<equiv> DjsError ''LOGIN_FAILED_2FA''"

abbreviation InvalidRemoteAuthUrlError :: error where
  "InvalidRemoteAuthUrlError \<equiv> DjsError ''INVALID_REMOTE_AUTH_URL''"

abbreviation ClientNotReadyError :: error where
  "ClientNotReadyError \<equiv> DjsError ''CLIENT_NOT_READY''"

text \<open>
  The errors of \<^verbatim>\<open>_validateOptions\<close>, which the specification calls ConfigurationError.
\<close>

fun is_ConfigurationError :: "error \<Rightarrow> bool" where
  "is_ConfigurationError (DjsTypeError k _) =
     (k = ''CLIENT_INVALID_OPTION'' \<or> k = ''CLIENT_MISSING_INTENTS'')"
| "is_ConfigurationError (DjsRangeError k) = (k = ''CLIENT_INVALID_PROVIDED_SHARDS'')"
| "is_ConfigurationError (DjsError k) = (k = ''MISSING_MODULE'')"
| "is_ConfigurationError _ = False"

text \<open>
  Modelled from the spec: the \<^verbatim>\<open>Status\<close> constants of \<^verbatim>\<open>util/Constants\<close> are not in
  the source given; the specification lists the states of a session.
\<close>

datatype status = IDLE | CONNECTING | READY | DISCONNECTED | DESTROYED

text \<open>
  A cleanup is a zero-argument function held in \<^verbatim>\<open>this._cleanups\<close>. It is known by its
  identity; when called it returns, or throws the error given.
\<close>

datatype cleanup = CleanupFn (cleanup_id: nat) (throws: "error option")

text \<open>The REST requests the client issues, with the data they carry.\<close>

datatype request =
    AuthLogin string string
  | MfaTotp string jsval
  | RemoteAuthInit string
  | RemoteAuthFinish jsval
  | RemoteAuthCancel jsval
  | AuthLogout
  | GiftRedeem string jsval

text \<open>
  What the client does to the world outside it, in order: a REST request, a connect of
  the transport with the token, a call of a cleanup function.
\<close>

datatype event = Request request | Connect string | Invoke cleanup

type_synonym jsobj = "string \<Rightarrow> jsval"

subsection \<open>State\<close>

text \<open>
  Modelled from the spec: \<^verbatim>\<open>WebSocketManager\<close> is not in the source given. The transport
  has a status, which \<^verbatim>\<open>isReady\<close> reads, and can be torn down.
\<close>

record ws_state =
  ws_status :: status
  ws_destroyed :: bool

text \<open>
  The fields of the client the methods below read or write. \<open>sweepMessageInterval\<close> is
  the timer handle, if the constructor made one, with whether the timer still runs.
  \<open>rest_sweeping\<close> is the interval \<^verbatim>\<open>BaseClient.destroy\<close> clears and \<open>sweepers_running\<close>
  the timers \<^verbatim>\<open>Sweepers.destroy\<close> clears (modelled from the spec: neither class is in
  the source given). \<open>caches\<close> holds the ids cached under each manager's name.
\<close>

record client =
  options :: jsobj
  token :: "string option"
  password :: jsval
  cleanups :: "cleanup list"
  usedCodes :: "string list"
  ws :: ws_state
  sweepMessageInterval :: "bool option"
  sweepers_running :: bool
  rest_sweeping :: bool
  caches :: "string \<Rightarrow> string list"
  trace :: "event list"

text \<open>A parsed URL: the two parts \<^verbatim>\<open>remoteAuth\<close> reads.\<close>

record url =
  hostname :: string
  pathname :: string

text \<open>
  The collaborators and the process environment. \<open>api\<close> answers a REST request, given
  everything the client has done before; it rejects with an error or resolves with an
  object. \<open>ws_connect\<close> is \<^verbatim>\<open>ws.connect()\<close>: given the token and the transport's state
  it resolves (\<open>None\<close>) or rejects, and leaves the transport in a new state.
  \<open>URL_parse\<close> is \<^verbatim>\<open>new URL(url)\<close>, \<open>None\<close> when it throws. \<open>resolveId\<close> is
  \<^verbatim>\<open>channels.resolveId\<close>. The rest is what the constructor reads: the defaults of
  \<^verbatim>\<open>Options.createDefault()\<close>, \<^verbatim>\<open>workerData ?? process.env\<close>, \<^verbatim>\<open>JSON.parse\<close>, \<^verbatim>\<open>Number\<close>,
  the \<^verbatim>\<open>captchaServices\<close> constant, \<^verbatim>\<open>testImportModule('proxy-agent')\<close>,
  \<^verbatim>\<open>Intents.resolve\<close> and \<^verbatim>\<open>process.env.DISCORD_TOKEN\<close>.
\<close>

record env =
  api :: "event list \<Rightarrow> request \<Rightarrow> error + jsobj"
  ws_connect :: "string \<Rightarrow> ws_state \<Rightarrow> error option \<times> ws_state"
  URL_parse :: "string \<Rightarrow> url option"
  resolveId :: "jsval \<Rightarrow> jsval"
  defaults_shards :: jsval
  defaults_shardCount :: jsval
  data_SHARDS :: "string option"
  data_SHARD_COUNT :: "string option"
  JSON_parse :: "string \<Rightarrow> error + jsval"
  Number_of :: "string \<Rightarrow> jsnum"
  captchaServices :: "string list"
  proxy_agent_installed :: bool
  Intents_resolve :: "jsval \<Rightarrow> error + jsval"
  DISCORD_TOKEN :: "string option"

text \<open>Issuing a request: it is recorded, and the REST layer answers.\<close>

definition post :: "env \<Rightarrow> request \<Rightarrow> client \<Rightarrow> (error + jsobj) \<times> client" where
  "post env rq c = (api env (trace c) rq, c\<lparr>trace := trace c @ [Request rq]\<rparr>)"

subsection \<open>isReady and destroy\<close>

text \<open>\<^verbatim>\<open>return this.ws.status === Status.READY\<close>.\<close>

definition isReady :: "client \<Rightarrow> bool" where
  "isReady c = (ws_status (ws c) = READY)"

text \<open>
  \<^verbatim>\<open>for (const fn of this._cleanups) fn();\<close> Each call is recorded. A cleanup that throws
  ends the loop: nothing in \<^verbatim>\<open>destroy\<close> catches it.
\<close>

fun run_cleanups :: "cleanup list \<Rightarrow> event list \<Rightarrow> error option \<times> event list" where
  "run_cleanups [] tr = (None, tr)"
| "run_cleanups (f # fs) tr =
     (case throws f of
        Some e \<Rightarrow> (Some e, tr @ [Invoke f])
      | None \<Rightarrow> run_cleanups fs (tr @ [Invoke f]))"

text \<open>
  \<^verbatim>\<open>destroy()\<close>, lines 566 to 578: \<^verbatim>\<open>super.destroy()\<close>, the cleanups,
  \<^verbatim>\<open>this._cleanups.clear()\<close>, \<^verbatim>\<open>clearInterval\<close> of the message sweep timer if there is
  one, \<^verbatim>\<open>this.sweepers.destroy()\<close>, \<^verbatim>\<open>this.ws.destroy()\<close>, and the token and the password
  set to null.
\<close>

definition destroy :: "client \<Rightarrow> (error + unit) \<times> client" where
  "destroy c =
     (let c1 = c\<lparr>rest_sweeping := False\<rparr>;
          (r, tr) = run_cleanups (cleanups c1) (trace c1);
          c2 = c1\<lparr>trace := tr\<rparr>
      in case r of
           Some e \<Rightarrow> (Inl e, c2)
         | None \<Rightarrow>
             (Inr (),
              c2\<lparr>cleanups := [],
                 sweepMessageInterval := map_option (\<lambda>_. False) (sweepMessageInterval c2),
                 sweepers_running := False,
                 ws := (ws c2)\<lparr>ws_destroyed := True\<rparr>,
                 token := None,
                 password := JNull\<rparr>))"

subsection \<open>login\<close>

text \<open>A nullable string field read as a value.\<close>

definition nullable :: "string option \<Rightarrow> jsval" where
  "nullable t = (case t of None \<Rightarrow> JNull | Some s \<Rightarrow> JStr s)"

text \<open>
  \<^verbatim>\<open>async login(token = this.token)\<close>, lines 329 to 362. An argument that is undefined
  takes the default. The debug events and the presence option (\<^verbatim>\<open>this.presence._parse\<close>,
  a collaborator) touch nothing modelled here. A rejected promise is \<open>Inl\<close>.
\<close>

definition login :: "env \<Rightarrow> jsval \<Rightarrow> client \<Rightarrow> (error + string) \<times> client" where
  "login env arg c =
     (let tok = (if arg = JUndefined then nullable (token c) else arg)
      in if \<not> truthy tok \<or> typeof tok \<noteq> ''string'' then (Inl (DjsError ''TOKEN_INVALID''), c)
         else case tok of
           JStr t \<Rightarrow>
             (let t' = strip_scheme t;
                  c1 = c\<lparr>token := Some t'\<rparr>;
                  (r, w) = ws_connect env t' (ws c1);
                  c2 = c1\<lparr>ws := w, trace := trace c1 @ [Connect t']\<rparr>
              in case r of
                   None \<Rightarrow> (Inr t', c2)
                 | Some e \<Rightarrow>
                     (case destroy c2 of
                        (Inl e', c3) \<Rightarrow> (Inl e', c3)
                      | (Inr _, c3) \<Rightarrow> (Inl e, c3)))
         | _ \<Rightarrow> (Inl (DjsError ''TOKEN_INVALID''), c))"

subsection \<open>normalLogin\<close>

text \<open>
  \<^verbatim>\<open>async normalLogin(username, password = this.password, mfaCode)\<close>, lines 371 to 419.
\<close>

definition normalLogin ::
  "env \<Rightarrow> jsval \<Rightarrow> jsval \<Rightarrow> jsval \<Rightarrow> client \<Rightarrow> (error + string) \<times> client" where
  "normalLogin env username pw_arg mfaCode c =
     (let pw = (if pw_arg = JUndefined then password c else pw_arg)
      in if \<not> truthy username \<or> \<not> truthy pw
            \<or> typeof username \<noteq> ''string'' \<or> typeof pw \<noteq> ''string''
         then (Inl (DjsError ''NORMAL_LOGIN''), c)
         else case (username, pw) of
           (JStr u, JStr p) \<Rightarrow>
               (case post env (AuthLogin u p) c of
                  (Inl e, c1) \<Rightarrow> (Inl e, c1)
                | (Inr data, c1) \<Rightarrow>
                    (let c2 = c1\<lparr>password := JStr p\<rparr>
                     in if \<not> truthy (data ''token'') \<and> truthy (data ''ticket'')
                           \<and> truthy (data ''mfa'') then
                          (if \<not> truthy mfaCode \<or> typeof mfaCode \<noteq> ''string'' then
                             (Inl (DjsError ''LOGIN_FAILED_2FA''), c2)
                           else case mfaCode of
                             JStr m \<Rightarrow>
                               if normal2fa_test m \<or> backupCode_test m then
                                 (case post env (MfaTotp m (data ''ticket'')) c2 of
                                    (Inl e, c3) \<Rightarrow> (Inl e, c3)
                                  | (Inr data2, c3) \<Rightarrow> login env (data2 ''token'') c3)
                               else (Inl (DjsError ''LOGIN_FAILED_2FA''), c2)
                           | _ \<Rightarrow> (Inl (DjsError ''LOGIN_FAILED_2FA''), c2))
                        else if truthy (data ''token'') then login env (data ''token'') c2
                        else (Inl (DjsError ''LOGIN_FAILED_UNKNOWN''), c2)))
         | _ \<Rightarrow> (Inl (DjsError ''NORMAL_LOGIN''), c))"

subsection \<open>remoteAuth\<close>

text \<open>
  What \<^verbatim>\<open>remoteAuth\<close> resolves with: the answer of the finish request when acceptance is
  forced, else the pair of continuations \<^verbatim>\<open>{ yes, no }\<close>, which hold the handshake
  token.
\<close>

datatype remote_auth_result = Finished jsobj | Confirm jsval

text \<open>\<^verbatim>\<open>async remoteAuth(url, forceAccept = false)\<close>, lines 468 to 499.\<close>

definition remoteAuth ::
  "env \<Rightarrow> string \<Rightarrow> jsval \<Rightarrow> client \<Rightarrow> (error + remote_auth_result) \<times> client" where
  "remoteAuth env u forceAccept c =
     (if \<not> isReady c then (Inl (DjsError ''CLIENT_NOT_READY''), c)
      else case URL_parse env u of
        None \<Rightarrow> (Inl (Native ''ERR_INVALID_URL''), c)
      | Some url \<Rightarrow>
          if hostname url \<notin> set [''discordapp.com'', ''discord.com'']
             \<or> \<not> prefix ''/ra/'' (pathname url)
             \<or> length (pathname url) \<le> 4
          then (Inl (DjsError ''INVALID_REMOTE_AUTH_URL''), c)
          else
            (let hash = drop 4 (pathname url)
             in case post env (RemoteAuthInit hash) c of
                  (Inl e, c1) \<Rightarrow> (Inl e, c1)
                | (Inr res, c1) \<Rightarrow>
                    (let handshake_token = res ''handshake_token''
                     in if truthy forceAccept then
                          (case post env (RemoteAuthFinish handshake_token) c1 of
                             (Inl e, c2) \<Rightarrow> (Inl e, c2)
                           | (Inr r, c2) \<Rightarrow> (Inr (Finished r), c2))
                        else (Inr (Confirm handshake_token), c1))))"

text \<open>The continuations \<^verbatim>\<open>yes\<close> and \<^verbatim>\<open>no\<close>.\<close>

definition remoteAuth_yes :: "env \<Rightarrow> jsval \<Rightarrow> client \<Rightarrow> (error + jsobj) \<times> client" where
  "remoteAuth_yes env handshake_token c = post env (RemoteAuthFinish handshake_token) c"

definition remoteAuth_no :: "env \<Rightarrow> jsval \<Rightarrow> client \<Rightarrow> (error + jsobj) \<times> client" where
  "remoteAuth_no env handshake_token c = post env (RemoteAuthCancel handshake_token) c"

subsection \<open>logout\<close>

text \<open>
  \<^verbatim>\<open>await this.api.auth.logout.post(...); await this.destroy();\<close>, lines 584 to 592.
\<close>

definition logout :: "env \<Rightarrow> client \<Rightarrow> (error + unit) \<times> client" where
  "logout env c =
     (case post env AuthLogout c of
        (Inl e, c1) \<Rightarrow> (Inl e, c1)
      | (Inr _, c1) \<Rightarrow> destroy c1)"

subsection \<open>redeemNitro and the hourly reset\<close>

text \<open>
  The loop of lines 669 to 684 over \<^verbatim>\<open>codeArray\<close>. \<open>channel_id\<close> is
  \<^verbatim>\<open>channel || null\<close>; \<open>fail\<close> is \<^verbatim>\<open>failIfNotExists\<close>; \<open>redeem\<close> is the flag returned.
  Both handlers push the code; the rejection handler rethrows when \<open>fail\<close> is set, which
  ends the loop.
\<close>

fun redeem_loop ::
  "env \<Rightarrow> jsval \<Rightarrow> bool \<Rightarrow> string list \<Rightarrow> bool \<Rightarrow> client \<Rightarrow> (error + bool) \<times> client" where
  "redeem_loop env channel_id fail [] redeem c = (Inr redeem, c)"
| "redeem_loop env channel_id fail (code # rest) redeem c =
     (if code \<in> set (usedCodes c) then redeem_loop env channel_id fail rest redeem c
      else case post env (GiftRedeem code channel_id) c of
        (Inr _, c1) \<Rightarrow>
          redeem_loop env channel_id fail rest True (c1\<lparr>usedCodes := usedCodes c1 @ [code]\<rparr>)
      | (Inl e, c1) \<Rightarrow>
          (let c2 = c1\<lparr>usedCodes := usedCodes c1 @ [code]\<rparr>
           in if fail then (Inl e, c2) else redeem_loop env channel_id fail rest redeem c2))"

text \<open>
  \<^verbatim>\<open>async redeemNitro(nitro, channel, failIfNotExists = true)\<close>, lines 657 to 686.
\<close>

definition redeemNitro ::
  "env \<Rightarrow> jsval \<Rightarrow> jsval \<Rightarrow> jsval \<Rightarrow> client \<Rightarrow> (error + bool) \<times> client" where
  "redeemNitro env nitro channel failIfNotExists c =
     (case nitro of
        JStr text \<Rightarrow>
          (let ch = resolveId env channel;
               fail = (if failIfNotExists = JUndefined then True else truthy failIfNotExists)
           in case match_gift text of
                None \<Rightarrow> (Inr False, c)
              | Some nitroArray \<Rightarrow>
                  redeem_loop env (if truthy ch then ch else JNull) fail
                    (map strip_url nitroArray) False c)
      | _ \<Rightarrow> (Inl (DjsError ''INVALID_NITRO''), c))"

text \<open>\<^verbatim>\<open>setInterval(() => { this.usedCodes = []; }, 3_600_000)\<close>, lines 263 to 266.\<close>

definition hourly_reset :: "client \<Rightarrow> client" where
  "hourly_reset c = c\<lparr>usedCodes := []\<rparr>"

text \<open>
  What happens to the used codes over a client's lifetime: calls of \<^verbatim>\<open>redeemNitro\<close>, one
  after the other, and ticks of the hourly timer. A call that rejects leaves the client
  in the state it reached.
\<close>

datatype lifetime_op = Redeem jsval jsval jsval | HourlyTick

fun lifetime_step :: "env \<Rightarrow> lifetime_op \<Rightarrow> client \<Rightarrow> client" where
  "lifetime_step env (Redeem nitro channel failIfNotExists) c =
     snd (redeemNitro env nitro channel failIfNotExists c)"
| "lifetime_step env HourlyTick c = hourly_reset c"

fun lifetime :: "env \<Rightarrow> lifetime_op list \<Rightarrow> client \<Rightarrow> client" where
  "lifetime env [] c = c"
| "lifetime env (s # ss) c = lifetime env ss (lifetime_step env s c)"

text \<open>The codes of the redemption requests in a trace, in order.\<close>

fun redeemed_codes :: "event list \<Rightarrow> string list" where
  "redeemed_codes [] = []"
| "redeemed_codes (Request (GiftRedeem code ch) # tr) = code # redeemed_codes tr"
| "redeemed_codes (_ # tr) = redeemed_codes tr"

section \<open>Construction\<close>

subsection \<open>Helpers\<close>

text \<open>
  \<^verbatim>\<open>v.length\<close> of a string or an array. The arity of a function and the properties of
  an object are not modelled; \<^verbatim>\<open>_validateOptions\<close> has thrown at line 1076 before it
  reads the length of either.
\<close>

fun js_length :: "jsval \<Rightarrow> jsval" where
  "js_length (JStr s) = JNum (Fin (of_nat (length s)))"
| "js_length (JArr xs) = JNum (Fin (of_nat (length xs)))"
| "js_length _ = JUndefined"

text \<open>
  \<^verbatim>\<open>isNaN(v)\<close>, \<^verbatim>\<open>v < 1\<close> and \<^verbatim>\<open>v > 0\<close>. The source applies them to an option only
  behind \<^verbatim>\<open>typeof v !== 'number' ||\<close>, or after that test has passed, so only their
  value on a number matters.
\<close>

fun js_isNaN :: "jsval \<Rightarrow> bool" where
  "js_isNaN (JNum n) = num_isNaN n"
| "js_isNaN _ = False"

fun js_lt1 :: "jsval \<Rightarrow> bool" where
  "js_lt1 (JNum (Fin x)) = (x < 1)"
| "js_lt1 (JNum NegInf) = True"
| "js_lt1 _ = False"

fun js_gt0 :: "jsval \<Rightarrow> bool" where
  "js_gt0 (JNum (Fin x)) = (0 < x)"
| "js_gt0 (JNum PosInf) = True"
| "js_gt0 _ = False"

text \<open>\<^verbatim>\<open>list.includes(v)\<close> for a list of strings.\<close>

fun includes_str :: "string list \<Rightarrow> jsval \<Rightarrow> bool" where
  "includes_str xs (JStr s) = (s \<in> set xs)"
| "includes_str xs _ = False"

text \<open>
  ToLength, and \<^verbatim>\<open>Array.from({ length: n }, (_, i) => i)\<close>: the length is truncated and
  clamped to \<open>0 .. 2^53 - 1\<close>, and an array longer than \<open>2^32 - 1\<close> cannot be created.
\<close>

fun ToLength :: "jsnum \<Rightarrow> nat" where
  "ToLength (Fin x) = (if trunc x \<le> 0 then 0 else min (nat (trunc x)) (2 ^ 53 - 1))"
| "ToLength PosInf = 2 ^ 53 - 1"
| "ToLength _ = 0"

definition Array_from_length :: "jsnum \<Rightarrow> error + jsval" where
  "Array_from_length n =
     (let len = ToLength n
      in if 2 ^ 32 - 1 < len then Inl (Native ''RangeError: Invalid array length'')
         else Inr (JArr (map (\<lambda>i. JNum (Fin (of_nat i))) [0..<len])))"

subsection \<open>Normalisation of the shard opts (constructor, lines 58 to 89)\<close>

text \<open>
  \<open>opts\<close> is \<^verbatim>\<open>this.options\<close> as \<^verbatim>\<open>BaseClient\<close> leaves it: the caller's options
  merged over the defaults. A property that is absent reads as undefined.
\<close>

definition shards_from_data :: "env \<Rightarrow> jsobj \<Rightarrow> error + jsobj" where
  "shards_from_data env opts =
     (if strict_eq (opts ''shards'') (defaults_shards env) then
        (case data_SHARDS env of
           Some s \<Rightarrow>
             (case JSON_parse env s of
                Inl e \<Rightarrow> Inl e
              | Inr v \<Rightarrow> Inr (opts(''shards'' := v)))
         | None \<Rightarrow> Inr opts)
      else Inr opts)"

definition shardCount_from_data :: "env \<Rightarrow> jsobj \<Rightarrow> jsobj" where
  "shardCount_from_data env opts =
     (if strict_eq (opts ''shardCount'') (defaults_shardCount env) then
        (case data_SHARD_COUNT env of
           Some s \<Rightarrow> opts(''shardCount'' := JNum (Number_of env s))
         | None \<Rightarrow>
             if isArray (opts ''shards'')
             then opts(''shardCount'' := js_length (opts ''shards''))
             else opts)
      else opts)"

definition shards_by_type :: "jsobj \<Rightarrow> error + jsobj" where
  "shards_by_type opts =
     (let typeofShards = typeof (opts ''shards'')
      in case
           (if typeofShards = ''undefined'' \<and> typeof (opts ''shardCount'') = ''number'' then
              (case opts ''shardCount'' of
                 JNum n \<Rightarrow>
                   (case Array_from_length n of
                      Inl e \<Rightarrow> Inl e
                    | Inr a \<Rightarrow> Inr (opts(''shards'' := a)))
               | _ \<Rightarrow> Inr opts)
            else Inr opts)
         of
           Inl e \<Rightarrow> Inl e
         | Inr options1 \<Rightarrow>
             Inr (if typeofShards = ''number''
                  then options1(''shards'' := JArr [options1 ''shards''])
                  else options1))"

definition shards_filtered :: "jsobj \<Rightarrow> jsobj" where
  "shards_filtered opts =
     (case opts ''shards'' of
        JArr xs \<Rightarrow> opts(''shards'' := JArr (resolve_shard_list xs))
      | _ \<Rightarrow> opts)"

definition normalize_shards :: "env \<Rightarrow> jsobj \<Rightarrow> error + jsobj" where
  "normalize_shards env opts =
     (case shards_from_data env opts of
        Inl e \<Rightarrow> Inl e
      | Inr options1 \<Rightarrow>
          (case shards_by_type (shardCount_from_data env options1) of
             Inl e \<Rightarrow> Inl e
           | Inr options2 \<Rightarrow> Inr (shards_filtered options2)))"

subsection \<open>\<^verbatim>\<open>_validateOptions\<close> (lines 1013 to 1130)\<close>

abbreviation invalid_option :: "string \<Rightarrow> error" where
  "invalid_option name \<equiv> DjsTypeError ''CLIENT_INVALID_OPTION'' name"

definition not_boolean :: "jsval \<Rightarrow> bool" where
  "not_boolean v = (typeof v \<noteq> ''boolean'')"

definition not_a_number :: "jsval \<Rightarrow> bool" where
  "not_a_number v = (typeof v \<noteq> ''number'' \<or> js_isNaN v)"

text \<open>
  The tests after the one on \<^verbatim>\<open>intents\<close>, each with the error it throws, in the order of
  the source. The first test that holds decides. The two tests on \<^verbatim>\<open>captchaKey\<close> are
  nested in the source under the condition repeated here in both.
\<close>

definition option_checks :: "env \<Rightarrow> jsobj \<Rightarrow> (bool \<times> error) list" where
  "option_checks env opts =
     [(not_boolean (opts ''checkUpdate''), invalid_option ''checkUpdate''),
      (not_boolean (opts ''syncStatus''), invalid_option ''syncStatus''),
      (not_boolean (opts ''autoRedeemNitro''), invalid_option ''autoRedeemNitro''),
      (truthy (opts ''captchaService'')
         \<and> \<not> includes_str (captchaServices env) (opts ''captchaService''),
       invalid_option ''captchaService''),
      (includes_str (captchaServices env) (opts ''captchaService'')
         \<and> \<not> strict_eq (opts ''captchaService'') (JStr ''custom'')
         \<and> typeof (opts ''captchaKey'') \<noteq> ''string'',
       invalid_option ''captchaKey''),
      (includes_str (captchaServices env) (opts ''captchaService'')
         \<and> \<not> strict_eq (opts ''captchaService'') (JStr ''custom'')
         \<and> strict_eq (opts ''captchaService'') (JStr ''2captcha'')
         \<and> \<not> strict_eq (js_length (opts ''captchaKey'')) (JNum (Fin 32)),
       invalid_option ''captchaKey''),
      (typeof (opts ''captchaSolver'') \<noteq> ''function'', invalid_option ''captchaSolver''),
      (not_boolean (opts ''DMSync''), invalid_option ''DMSync''),
      (not_boolean (opts ''patchVoice''), invalid_option ''patchVoice''),
      (truthy (opts ''password'') \<and> typeof (opts ''password'') \<noteq> ''string'',
       invalid_option ''password''),
      (truthy (opts ''usingNewAttachmentAPI'')
         \<and> not_boolean (opts ''usingNewAttachmentAPI''),
       invalid_option ''usingNewAttachmentAPI''),
      (truthy (opts ''interactionTimeout'')
         \<and> typeof (opts ''interactionTimeout'') \<noteq> ''number'',
       invalid_option ''interactionTimeout''),
      (typeof (opts ''proxy'') \<noteq> ''string'', invalid_option ''proxy''),
      (truthy (opts ''proxy'') \<and> typeof (opts ''proxy'') = ''string''
         \<and> \<not> proxy_agent_installed env,
       DjsError ''MISSING_MODULE''),
      (typeof (opts ''shardCount'') \<noteq> ''number'' \<or> js_isNaN (opts ''shardCount'')
         \<or> js_lt1 (opts ''shardCount''),
       invalid_option ''shardCount''),
      (truthy (opts ''shards'')
         \<and> \<not> (strict_eq (opts ''shards'') (JStr ''auto'') \<or> isArray (opts ''shards'')),
       invalid_option ''shards''),
      (truthy (opts ''shards'') \<and> \<not> truthy (js_length (opts ''shards'')),
       DjsRangeError ''CLIENT_INVALID_PROVIDED_SHARDS''),
      (typeof (opts ''makeCache'') \<noteq> ''function'', invalid_option ''makeCache''),
      (not_a_number (opts ''messageCacheLifetime''),
       invalid_option ''The messageCacheLifetime''),
      (not_a_number (opts ''messageSweepInterval''), invalid_option ''messageSweepInterval''),
      (typeof (opts ''sweepers'') \<noteq> ''object'' \<or> strict_eq (opts ''sweepers'') JNull,
       invalid_option ''sweepers''),
      (not_a_number (opts ''invalidRequestWarningInterval''),
       invalid_option ''invalidRequestWarningInterval''),
      (\<not> isArray (opts ''partials''), invalid_option ''partials''),
      (not_a_number (opts ''waitGuildTimeout''), invalid_option ''waitGuildTimeout''),
      (not_a_number (opts ''messageCreateEventGuildTimeout''),
       invalid_option ''messageCreateEventGuildTimeout''),
      (not_a_number (opts ''restWsBridgeTimeout''), invalid_option ''restWsBridgeTimeout''),
      (not_a_number (opts ''restRequestTimeout''), invalid_option ''restRequestTimeout''),
      (not_a_number (opts ''restGlobalRateLimit''), invalid_option ''restGlobalRateLimit''),
      (not_a_number (opts ''restSweepInterval''), invalid_option ''restSweepInterval''),
      (not_a_number (opts ''retryLimit''), invalid_option ''retryLimit''),
      (not_boolean (opts ''failIfNotExists''), invalid_option ''failIfNotExists''),
      (\<not> isArray (opts ''userAgentSuffix''), invalid_option ''userAgentSuffix''),
      (typeof (opts ''rejectOnRateLimit'') \<noteq> ''undefined''
         \<and> \<not> (typeof (opts ''rejectOnRateLimit'') = ''function''
                \<or> isArray (opts ''rejectOnRateLimit'')),
       invalid_option ''rejectOnRateLimit'')]"

fun first_failure :: "(bool \<times> error) list \<Rightarrow> error option" where
  "first_failure [] = None"
| "first_failure ((b, e) # rest) = (if b then Some e else first_failure rest)"

definition validateOptions :: "env \<Rightarrow> jsobj \<Rightarrow> error + jsobj" where
  "validateOptions env opts =
     (if typeof (opts ''intents'') = ''undefined''
      then Inl (DjsTypeError ''CLIENT_MISSING_INTENTS'' [])
      else case Intents_resolve env (opts ''intents'') of
        Inl e \<Rightarrow> Inl e
      | Inr i \<Rightarrow>
          (let options1 = opts(''intents'' := i)
           in case first_failure (option_checks env options1) of
                Some e \<Rightarrow> Inl e
              | None \<Rightarrow> Inr options1))"

subsection \<open>The constructor\<close>

text \<open>
  The shard options are normalised, the options validated, and the fields set. The
  token is \<^verbatim>\<open>process.env.DISCORD_TOKEN\<close> when that is set, else null. The managers the
  constructor creates start with empty caches, the transport idle, and the timers of
  the REST manager and the sweepers running. No request is issued.
\<close>

definition Client_new :: "env \<Rightarrow> jsobj \<Rightarrow> error + client" where
  "Client_new env options0 =
     (case normalize_shards env options0 of
        Inl e \<Rightarrow> Inl e
      | Inr options1 \<Rightarrow>
          (case validateOptions env options1 of
             Inl e \<Rightarrow> Inl e
           | Inr options2 \<Rightarrow>
               Inr \<lparr>options = options2,
                    token = DISCORD_TOKEN env,
                    password = options2 ''password'',
                    cleanups = [],
                    usedCodes = [],
                    ws = \<lparr>ws_status = IDLE, ws_destroyed = False\<rparr>,
                    sweepMessageInterval =
                      (if js_gt0 (options2 ''messageSweepInterval'') then Some True else None),
                    sweepers_running = True,
                    rest_sweeping = True,
                    caches = (\<lambda>_. []),
                    trace = []\<rparr>))"

text \<open>
  The specification's words for a valid shard count: a positive integer.
\<close>

fun positive_integer :: "jsval \<Rightarrow> bool" where
  "positive_integer (JNum (Fin x)) = (0 < x \<and> x = of_int \<lfloor>x\<rfloor>)"
| "positive_integer _ = False"

text \<open>What line 1072 accepts: a number, not NaN, that is not below 1.\<close>

definition shardCount_accepted :: "jsval \<Rightarrow> bool" where
  "shardCount_accepted v = (typeof v = ''number'' \<and> \<not> js_isNaN v \<and> \<not> js_lt1 v)"

text \<open>A shard list that is present but empty.\<close>

definition empty_shard_list :: "jsval \<Rightarrow> bool" where
  "empty_shard_list v = (v = JArr [])"

section \<open>The specification's words, and concrete collaborators\<close>

text \<open>
  The prefix the specification names for \<^verbatim>\<open>login\<close>: a leading \<^verbatim>\<open>"Bot "\<close> or
  \<^verbatim>\<open>"Bearer "\<close>.
\<close>

definition strip_scheme_spec :: "string \<Rightarrow> string" where
  "strip_scheme_spec t =
     (if prefix ''Bot '' t then drop 4 t
      else if prefix ''Bearer '' t then drop 7 t
      else t)"

text \<open>
  The second-factor codes the specification names: six digits, or four alphanumeric
  characters, a dash, and four alphanumeric characters.
\<close>

definition is_alnum :: "char \<Rightarrow> bool" where
  "is_alnum c = (is_lower_alnum c \<or> (65 \<le> code_unit c \<and> code_unit c \<le> 90))"

definition spec_six_digit_code :: "string \<Rightarrow> bool" where
  "spec_six_digit_code m = (length m = 6 \<and> list_all is_digit m)"

definition spec_backup_code :: "string \<Rightarrow> bool" where
  "spec_backup_code m =
     (length m = 9 \<and> list_all is_alnum (take 4 m) \<and> m ! 4 = CHR ''-''
      \<and> list_all is_alnum (drop 5 m))"

text \<open>
  The value of the parameter of \<^verbatim>\<open>login(token = this.token)\<close> once the default has
  been applied.
\<close>

definition token_argument :: "client \<Rightarrow> jsval \<Rightarrow> jsval" where
  "token_argument c arg = (if arg = JUndefined then nullable (token c) else arg)"

text \<open>How often a trace calls a cleanup.\<close>

definition invocations :: "event list \<Rightarrow> cleanup \<Rightarrow> nat" where
  "invocations tr f = count_list tr (Invoke f)"

text \<open>The redemption requests issued between two states of one client.\<close>

definition redeemed_since :: "client \<Rightarrow> client \<Rightarrow> string list" where
  "redeemed_since c c' = drop (length (redeemed_codes (trace c))) (redeemed_codes (trace c'))"

text \<open>
  What some calls of \<^verbatim>\<open>redeemNitro\<close> have added between two states: the codes of the
  redemption requests issued, which are also the codes pushed on \<^verbatim>\<open>usedCodes\<close>, all
  different and none of them used before.
\<close>

definition posted :: "client \<Rightarrow> client \<Rightarrow> string list \<Rightarrow> bool" where
  "posted c c' new =
     (redeemed_codes (trace c') = redeemed_codes (trace c) @ new
      \<and> usedCodes c' = usedCodes c @ new
      \<and> distinct new
      \<and> set new \<inter> set (usedCodes c) = {})"

text \<open>
  A client as the constructor leaves it when no option asks for a message sweep timer
  and the environment holds no token.
\<close>

definition fresh_client :: client where
  "fresh_client =
     \<lparr>options = (\<lambda>_. JUndefined),
      token = None,
      password = JUndefined,
      cleanups = [],
      usedCodes = [],
      ws = \<lparr>ws_status = IDLE, ws_destroyed = False\<rparr>,
      sweepMessageInterval = None,
      sweepers_running = True,
      rest_sweeping = True,
      caches = (\<lambda>_. []),
      trace = []\<rparr>"

text \<open>
  What \<^verbatim>\<open>new URL\<close> makes of three addresses; it throws on a string that is no URL.
\<close>

definition example_URL_parse :: "string \<Rightarrow> url option" where
  "example_URL_parse u =
     (if u = ''https://discord.com/ra/abc123''
        then Some \<lparr>hostname = ''discord.com'', pathname = ''/ra/abc123''\<rparr>
      else if u = ''https://evil.example/ra/abc123''
        then Some \<lparr>hostname = ''evil.example'', pathname = ''/ra/abc123''\<rparr>
      else if u = ''https://discord.com/ra/''
        then Some \<lparr>hostname = ''discord.com'', pathname = ''/ra/''\<rparr>
      else None)"

text \<open>
  A service that answers: a credential login is answered with an MFA ticket, the MFA
  exchange with a token, the remote-auth handshake with a handshake token, and every
  other request with an empty object. The transport connects.
\<close>

fun example_answer :: "request \<Rightarrow> jsobj" where
  "example_answer (AuthLogin u p) =
     (\<lambda>_. JUndefined)(''ticket'' := JStr ''t1'', ''mfa'' := JBool True)"
| "example_answer (MfaTotp m t) = (\<lambda>_. JUndefined)(''token'' := JStr ''Bot tok2'')"
| "example_answer (RemoteAuthInit h) = (\<lambda>_. JUndefined)(''handshake_token'' := JStr ''h1'')"
| "example_answer _ = (\<lambda>_. JUndefined)"

definition online_env :: env where
  "online_env =
     \<lparr>api = (\<lambda>tr rq. Inr (example_answer rq)),
      ws_connect = (\<lambda>t w. (None, w\<lparr>ws_status := READY\<rparr>)),
      URL_parse = example_URL_parse,
      resolveId = (\<lambda>v. v),
      defaults_shards = JUndefined,
      defaults_shardCount = JNum (Fin 1),
      data_SHARDS = None,
      data_SHARD_COUNT = None,
      JSON_parse = (\<lambda>_. Inl (Native ''SyntaxError'')),
      Number_of = (\<lambda>_. NaN),
      captchaServices = [''2captcha'', ''capmonster'', ''custom''],
      proxy_agent_installed = False,
      Intents_resolve = (\<lambda>v. Inr v),
      DISCORD_TOKEN = None\<rparr>"

text \<open>A service that is down: every request and every connect is rejected.\<close>

definition offline_env :: env where
  "offline_env =
     online_env\<lparr>api := (\<lambda>tr rq. Inl (Thrown 503)),
                ws_connect := (\<lambda>t w. (Some (Thrown 1006), w\<lparr>ws_status := DISCONNECTED\<rparr>))\<rparr>"

text \<open>A client that is connected, and one that holds credentials and a cleanup.\<close>

definition ready_client :: client where
  "ready_client = fresh_client\<lparr>ws := \<lparr>ws_status = READY, ws_destroyed = False\<rparr>\<rparr>"

text \<open>Two cleanups: one returns, one throws.\<close>

definition good_cleanup :: cleanup where
  "good_cleanup = CleanupFn 0 None"

definition bad_cleanup :: cleanup where
  "bad_cleanup = CleanupFn 1 (Some (Thrown 7))"

definition logged_in_client :: client where
  "logged_in_client =
     fresh_client\<lparr>token := Some ''abc'', password := JStr ''pw'', cleanups := [good_cleanup]\<rparr>"

text \<open>The same client with a second cleanup, which throws.\<close>

definition fragile_client :: client where
  "fragile_client = logged_in_client\<lparr>cleanups := [good_cleanup, bad_cleanup]\<rparr>"

text \<open>Options that pass \<^verbatim>\<open>_validateOptions\<close>, with one shard.\<close>

definition example_options :: jsobj where
  "example_options =
     (\<lambda>_. JUndefined)
       (''intents'' := JNum (Fin 0),
        ''checkUpdate'' := JBool True,
        ''syncStatus'' := JBool True,
        ''autoRedeemNitro'' := JBool False,
        ''captchaSolver'' := JFun,
        ''DMSync'' := JBool False,
        ''patchVoice'' := JBool False,
        ''proxy'' := JStr [],
        ''shardCount'' := JNum (Fin 1),
        ''shards'' := JArr [JNum (Fin 0)],
        ''makeCache'' := JFun,
        ''messageCacheLifetime'' := JNum (Fin 0),
        ''messageSweepInterval'' := JNum (Fin 0),
        ''sweepers'' := JObj,
        ''invalidRequestWarningInterval'' := JNum (Fin 0),
        ''partials'' := JArr [],
        ''waitGuildTimeout'' := JNum (Fin 15000),
        ''messageCreateEventGuildTimeout'' := JNum (Fin 100),
        ''restWsBridgeTimeout'' := JNum (Fin 5000),
        ''restRequestTimeout'' := JNum (Fin 15000),
        ''restGlobalRateLimit'' := JNum (Fin 0),
        ''restSweepInterval'' := JNum (Fin 60),
        ''retryLimit'' := JNum (Fin 1),
        ''failIfNotExists'' := JBool True,
        ''userAgentSuffix'' := JArr [])"

section \<open>Facts about the shard list\<close>

lemma new_Set_snoc: "new_Set (xs @ [x]) = Set_add (new_Set xs) x"
  by (simp add: new_Set_def)

lemma set_new_Set: "set (new_Set xs) = set xs"
  by (induction xs rule: rev_induct) (auto simp: new_Set_snoc Set_add_def new_Set_def)

lemma new_Set_first_occurrences: "new_Set xs = rev (remdups (rev xs))"
proof (induction xs rule: rev_induct)
  case Nil
  show ?case by (simp add: new_Set_def)
next
  case (snoc x xs)
  then show ?case
    by (simp add: new_Set_snoc Set_add_def set_new_Set)
qed

lemma ToInt32_of_small:
  assumes "0 \<le> k" and "k < 2 ^ 31"
  shows "ToInt32 (Fin (of_int k)) = k"
proof -
  have "trunc (of_int k) = k"
    using assms by (simp add: trunc_def)
  moreover have "k mod 2 ^ 32 = k"
    using assms by simp
  ultimately show ?thesis
    using assms by (simp add: ToInt32_def Let_def)
qed

lemma ToInt32_range: "- (2 ^ 31) \<le> ToInt32 n \<and> ToInt32 n < 2 ^ 31"
proof (cases n)
  case (Fin x)
  have "0 \<le> trunc x mod 2 ^ 32" and "trunc x mod 2 ^ 32 < 2 ^ 32"
    by simp_all
  then show ?thesis
    using Fin by (auto simp: ToInt32_def Let_def)
qed (simp_all add: ToInt32_def)

lemma shard_item_ok_iff: "shard_item_ok v = nonneg_int32 v"
proof (cases v)
  case (JNum n)
  show ?thesis
  proof (cases n)
    case (Fin x)
    show ?thesis
    proof
      assume ok: "shard_item_ok v"
      then have x: "0 \<le> x" and eq: "x = of_int (ToInt32 (Fin x))"
        using JNum Fin by (simp_all add: bitor0_def)
      from eq have fl: "x = of_int \<lfloor>x\<rfloor>"
        by (metis floor_of_int)
      have "of_int (ToInt32 (Fin x)) < (2 ^ 31 :: rat)"
        using ToInt32_range [of "Fin x"]
        by (metis of_int_less_iff of_int_numeral of_int_power)
      with eq have "x < 2 ^ 31" by simp
      with x fl show "nonneg_int32 v"
        using JNum Fin by simp
    next
      assume "nonneg_int32 v"
      then have x: "0 \<le> x" and fl: "x = of_int \<lfloor>x\<rfloor>" and lt: "x < 2 ^ 31"
        using JNum Fin by simp_all
      define k where "k = \<lfloor>x\<rfloor>"
      have xk: "x = of_int k" using fl k_def by simp
      have k0: "0 \<le> k" using x k_def by simp
      have "of_int k < (of_int (2 ^ 31) :: rat)" using lt xk by simp
      then have k31: "k < 2 ^ 31" by (simp only: of_int_less_iff)
      have "ToInt32 (Fin x) = k"
        using ToInt32_of_small [OF k0 k31] xk by simp
      then show "shard_item_ok v"
        using JNum Fin x xk by (simp add: bitor0_def)
    qed
  qed (simp_all add: JNum)
qed simp_all

lemma subseq_new_Set: "subseq (new_Set xs) xs"
proof (induction xs rule: rev_induct)
  case Nil
  show ?case by (simp add: new_Set_def)
next
  case (snoc x xs)
  then show ?case
    by (auto simp: new_Set_snoc Set_add_def intro: subseq_order.trans)
qed

lemma distinct_new_Set: "distinct (new_Set xs)"
  by (simp add: new_Set_first_occurrences)

text \<open>
  C3, as the code has it. For every raw shard list, \<^verbatim>\<open>[...new Set(shards.filter(...))]\<close>
  is the list of first occurrences of exactly the elements that are non-negative
  integers below \<open>2^31\<close>: a subsequence of the raw list, without duplicates, in the
  order of first occurrence. (\<open>rev \<circ> remdups \<circ> rev\<close> keeps the first occurrence of
  each element.)
\<close>

theorem resolve_shard_list_first_occurrences:
  "resolve_shard_list shards = rev (remdups (rev (filter nonneg_int32 shards)))
   \<and> subseq (resolve_shard_list shards) shards
   \<and> distinct (resolve_shard_list shards)
   \<and> set (resolve_shard_list shards) = {v \<in> set shards. nonneg_int32 v}"
proof -
  have f: "filter shard_item_ok shards = filter nonneg_int32 shards"
    by (rule filter_cong) (simp_all add: shard_item_ok_iff)
  have "subseq (new_Set (filter nonneg_int32 shards)) (filter nonneg_int32 shards)"
    by (rule subseq_new_Set)
  then have "subseq (new_Set (filter nonneg_int32 shards)) shards"
    by (rule subseq_order.trans) simp
  then show ?thesis
    by (simp add: resolve_shard_list_def f new_Set_first_occurrences [symmetric]
        distinct_new_Set set_new_Set)
qed

text \<open>
  The theorem at a list with duplicates, a negative number, a fraction, a string, NaN
  and Infinity.
\<close>

theorem resolve_shard_list_first_occurrences_witness:
  "resolve_shard_list
     [JNum (Fin 3), JNum (Fin 1), JNum (Fin 3), JNum (Fin (- 1)), JNum (Fin (3 / 2)),
      JStr ''2'', JNum NaN, JNum PosInf, JNum (Fin 1), JNum (Fin 0)]
   = [JNum (Fin 3), JNum (Fin 1), JNum (Fin 0)]"
proof -
  have "filter nonneg_int32
     [JNum (Fin 3), JNum (Fin 1), JNum (Fin 3), JNum (Fin (- 1)), JNum (Fin (3 / 2)),
      JStr ''2'', JNum NaN, JNum PosInf, JNum (Fin 1), JNum (Fin 0)]
     = [JNum (Fin 3), JNum (Fin 1), JNum (Fin 3), JNum (Fin 1), JNum (Fin 0)]"
    by code_simp
  then show ?thesis
    using resolve_shard_list_first_occurrences
      [of "[JNum (Fin 3), JNum (Fin 1), JNum (Fin 3), JNum (Fin (- 1)), JNum (Fin (3 / 2)),
            JStr ''2'', JNum NaN, JNum PosInf, JNum (Fin 1), JNum (Fin 0)]"]
    by simp
qed

text \<open>
  C3, as stated, fails: 2147483648 is a finite non-negative integer, and the filter
  drops it, because \<^verbatim>\<open>2147483648 | 0\<close> is \<^verbatim>\<open>-2147483648\<close>.
\<close>

theorem shard_2147483648_dropped:
  "finite_nonneg_integer (JNum (Fin 2147483648))
   \<and> resolve_shard_list [JNum (Fin 2147483648)] = []"
  by code_simp

section \<open>Facts about destroy\<close>

lemma run_cleanups_all_return:
  "\<forall>f \<in> set fs. throws f = None \<Longrightarrow> run_cleanups fs tr = (None, tr @ map Invoke fs)"
  by (induction fs arbitrary: tr) simp_all

lemma destroy_all_return:
  assumes "\<forall>f \<in> set (cleanups c). throws f = None"
  shows "destroy c =
    (Inr (),
     c\<lparr>rest_sweeping := False,
       trace := trace c @ map Invoke (cleanups c),
       cleanups := [],
       sweepMessageInterval := map_option (\<lambda>_. False) (sweepMessageInterval c),
       sweepers_running := False,
       ws := (ws c)\<lparr>ws_destroyed := True\<rparr>,
       token := None,
       password := JNull\<rparr>)"
  using run_cleanups_all_return [OF assms, of "trace c"]
  by (simp add: destroy_def)

lemma destroy_returns_clears:
  "fst (destroy c) = Inr () \<Longrightarrow>
     token (snd (destroy c)) = None \<and> password (snd (destroy c)) = JNull
     \<and> cleanups (snd (destroy c)) = []"
  by (auto simp: destroy_def Let_def split: prod.splits option.splits)

lemma count_list_map_inj:
  "inj f \<Longrightarrow> count_list (map f xs) (f x) = count_list xs x"
  by (induction xs) (auto dest: injD)

lemma count_list_distinct:
  "distinct xs \<Longrightarrow> count_list xs x = (if x \<in> set xs then 1 else 0)"
  by (induction xs) auto

lemma invocations_append_pending:
  "invocations (tr @ map Invoke fs) f = invocations tr f + count_list fs f"
proof -
  have "inj Invoke" by (simp add: inj_def)
  then show ?thesis
    by (simp add: invocations_def count_list_map_inj)
qed

text \<open>
  When no pending cleanup throws, \<^verbatim>\<open>destroy()\<close> is idempotent: calling it twice
  raises no error; the first call invokes the pending cleanups, each once, and empties
  the pending set; the second call changes nothing and invokes none, so over both calls
  a cleanup that was pending is invoked exactly once and no other is invoked; and the
  token and the password are null afterwards. (The pending set is a Set: its elements
  are distinct.)
\<close>

lemma destroy_twice:
  assumes "\<forall>f \<in> set (cleanups c). throws f = None" and "distinct (cleanups c)"
  shows "fst (destroy c) = Inr ()
     \<and> destroy (snd (destroy c)) = (Inr (), snd (destroy c))
     \<and> trace (snd (destroy c)) = trace c @ map Invoke (cleanups c)
     \<and> invocations (trace (snd (destroy (snd (destroy c))))) f
         = invocations (trace c) f + (if f \<in> set (cleanups c) then 1 else 0)
     \<and> cleanups (snd (destroy c)) = []
     \<and> token (snd (destroy c)) = None
     \<and> password (snd (destroy c)) = JNull"
proof -
  let ?c1 = "snd (destroy c)"
  have d1: "destroy c = (Inr (), ?c1)"
    by (simp add: destroy_all_return [OF assms(1)])
  have c1: "?c1 = c\<lparr>rest_sweeping := False,
       trace := trace c @ map Invoke (cleanups c),
       cleanups := [],
       sweepMessageInterval := map_option (\<lambda>_. False) (sweepMessageInterval c),
       sweepers_running := False,
       ws := (ws c)\<lparr>ws_destroyed := True\<rparr>,
       token := None,
       password := JNull\<rparr>"
    by (simp add: destroy_all_return [OF assms(1)])
  have empty: "\<forall>f \<in> set (cleanups ?c1). throws f = None"
    by (simp add: c1)
  have d2: "destroy ?c1 = (Inr (), ?c1)"
    by (subst destroy_all_return [OF empty]) (simp add: c1 option.map_comp comp_def)
  have cnt: "count_list (cleanups c) f = (if f \<in> set (cleanups c) then 1 else 0)"
    using assms(2) by (rule count_list_distinct)
  show ?thesis
    using d1 d2 cnt by (simp add: c1 invocations_append_pending)
qed

text \<open>
  The same at a client that holds a token, a password and one cleanup.
\<close>

lemma destroy_twice_witness:
  "fst (destroy logged_in_client) = Inr ()
   \<and> destroy (snd (destroy logged_in_client)) = (Inr (), snd (destroy logged_in_client))
   \<and> trace (snd (destroy logged_in_client)) = [Invoke good_cleanup]
   \<and> invocations (trace (snd (destroy (snd (destroy logged_in_client))))) good_cleanup = 1
   \<and> token (snd (destroy logged_in_client)) = None
   \<and> password (snd (destroy logged_in_client)) = JNull"
proof -
  have h1: "\<forall>f \<in> set (cleanups logged_in_client). throws f = None"
    by (simp add: logged_in_client_def good_cleanup_def)
  have h2: "distinct (cleanups logged_in_client)"
    by (simp add: logged_in_client_def)
  have tr: "trace logged_in_client = []" and cl: "cleanups logged_in_client = [good_cleanup]"
    by (simp_all add: logged_in_client_def fresh_client_def)
  note th = destroy_twice [OF h1 h2, of good_cleanup]
  let ?c1 = "snd (destroy logged_in_client)"
  have a1: "fst (destroy logged_in_client) = Inr ()"
    and a2: "destroy ?c1 = (Inr (), ?c1)"
    and a5: "token ?c1 = None" and a6: "password ?c1 = JNull"
    using th by blast+
  have "trace ?c1 = trace logged_in_client @ map Invoke (cleanups logged_in_client)"
    using th by blast
  then have a3: "trace ?c1 = [Invoke good_cleanup]"
    by (simp add: tr cl)
  have "invocations (trace (snd (destroy ?c1))) good_cleanup
      = invocations (trace logged_in_client) good_cleanup
        + (if good_cleanup \<in> set (cleanups logged_in_client) then 1 else 0)"
    using th by blast
  then have a4: "invocations (trace (snd (destroy ?c1))) good_cleanup = 1"
    by (simp add: tr cl invocations_def)
  show ?thesis
    using a1 a2 a3 a4 a5 a6 by blast
qed

text \<open>
  C7. The code at a client whose pending set holds a cleanup that returns and, after
  it, one that throws. The claim asks that two calls of \<^verbatim>\<open>destroy()\<close> raise no error,
  invoke no cleanup twice and leave the token and the password null. \<^verbatim>\<open>destroy()\<close>
  calls the cleanups with no try/catch, unlike \<^verbatim>\<open>_finalize\<close>, which guards the same
  call: the first call raises the cleanup's error and leaves the pending set, the token
  and the password; the second call raises again, and the cleanup that returns has run
  twice.
\<close>

theorem destroy_with_throwing_cleanup:
  "fst (destroy fragile_client) = Inl (Thrown 7)
   \<and> token (snd (destroy fragile_client)) = Some ''abc''
   \<and> password (snd (destroy fragile_client)) = JStr ''pw''
   \<and> fst (destroy (snd (destroy fragile_client))) = Inl (Thrown 7)
   \<and> invocations (trace (snd (destroy (snd (destroy fragile_client))))) good_cleanup = 2"
  by (simp add: destroy_def fragile_client_def logged_in_client_def fresh_client_def
      good_cleanup_def bad_cleanup_def invocations_def Let_def)

text \<open>
  So at this client the first call does not return, and the token and the password are
  not null after it.
\<close>

theorem destroy_with_throwing_cleanup_witness:
  "fst (destroy fragile_client) \<noteq> Inr ()
   \<and> token (snd (destroy fragile_client)) \<noteq> None
   \<and> password (snd (destroy fragile_client)) \<noteq> JNull
   \<and> 1 < invocations (trace (snd (destroy (snd (destroy fragile_client))))) good_cleanup"
  using destroy_with_throwing_cleanup by simp

section \<open>Facts about login\<close>

lemma login_invalid:
  assumes "\<not> truthy (if arg = JUndefined then nullable (token c) else arg)
           \<or> typeof (if arg = JUndefined then nullable (token c) else arg) \<noteq> ''string''"
  shows "login env arg c = (Inl (DjsError ''TOKEN_INVALID''), c)"
  using assms by (simp add: login_def Let_def)

lemma login_string:
  assumes "(if arg = JUndefined then nullable (token c) else arg) = JStr t" and "t \<noteq> []"
  shows "login env arg c =
    (let t' = strip_scheme t;
         c2 = c\<lparr>token := Some t', ws := snd (ws_connect env t' (ws c)),
                trace := trace c @ [Connect t']\<rparr>
     in case fst (ws_connect env t' (ws c)) of
          None \<Rightarrow> (Inr t', c2)
        | Some e \<Rightarrow>
            (case destroy c2 of
               (Inl e', c3) \<Rightarrow> (Inl e', c3)
             | (Inr _, c3) \<Rightarrow> (Inl e, c3)))"
proof (cases "ws_connect env (strip_scheme t) (ws c)")
  case (Pair r w)
  then show ?thesis
    using assms by (cases r) (simp_all add: login_def Let_def)
qed

lemma match_items_literal:
  "match_items (literal p) t =
     (if length p \<le> length t \<and> list_all2 ci_eq p (take (length p) t)
      then Some (drop (length p) t) else None)"
proof (induction p arbitrary: t)
  case Nil
  show ?case by (simp add: literal_def)
next
  case (Cons a p)
  show ?case
  proof (cases t)
    case Nil
    then show ?thesis by (simp add: literal_def)
  next
    case (Cons c cs)
    then show ?thesis
      using Cons.IH [of cs] by (simp add: literal_def)
  qed
qed

lemma ci_eq_refl: "ci_eq a a"
  by (simp add: ci_eq_def)

lemma match_items_literal_append: "match_items (literal p) (p @ r) = Some r"
  by (simp add: match_items_literal list_all2_same ci_eq_refl)

lemma strip_scheme_Bot: "strip_scheme (''Bot '' @ r) = dropWhile is_space r"
proof -
  have "match_items (literal ''Bot'') (''Bot'' @ (CHR '' '' # r)) = Some (CHR '' '' # r)"
    by (rule match_items_literal_append)
  moreover have "is_space CHR '' ''"
    by (simp add: is_space_def code_unit_def)
  ultimately show ?thesis
    by (simp add: strip_scheme_def)
qed

lemma not_Bot_Bearer: "match_items (literal ''Bot'') (''Bearer'' @ r) = None"
  by (simp add: literal_def ci_eq_def fold_case_def code_unit_def)

lemma strip_scheme_Bearer: "strip_scheme (''Bearer '' @ r) = dropWhile is_space r"
proof -
  have "match_items (literal ''Bearer'') (''Bearer'' @ (CHR '' '' # r)) = Some (CHR '' '' # r)"
    by (rule match_items_literal_append)
  moreover have "is_space CHR '' ''"
    by (simp add: is_space_def code_unit_def)
  moreover have "match_items (literal ''Bot'') (''Bearer'' @ (CHR '' '' # r)) = None"
    by (rule not_Bot_Bearer)
  ultimately show ?thesis
    by (simp add: strip_scheme_def)
qed

lemma strip_scheme_unfold:
  "strip_scheme t =
     (if 3 \<le> length t \<and> list_all2 ci_eq ''Bot'' (take 3 t) then dropWhile is_space (drop 3 t)
      else if 6 \<le> length t \<and> list_all2 ci_eq ''Bearer'' (take 6 t)
        then dropWhile is_space (drop 6 t)
      else t)"
proof -
  have l3: "length ''Bot'' = 3" and l6: "length ''Bearer'' = 6"
    by simp_all
  have a: "match_items (literal ''Bot'') t =
      (if 3 \<le> length t \<and> list_all2 ci_eq ''Bot'' (take 3 t) then Some (drop 3 t) else None)"
    using match_items_literal [of "''Bot''" t] by (simp only: l3)
  have b: "match_items (literal ''Bearer'') t =
      (if 6 \<le> length t \<and> list_all2 ci_eq ''Bearer'' (take 6 t) then Some (drop 6 t) else None)"
    using match_items_literal [of "''Bearer''" t] by (simp only: l6)
  show ?thesis
    unfolding strip_scheme_def a b by (simp del: list_all2_Cons1 list_all2_Cons2 take_Suc_Cons)
qed

lemmas string_eval = literal_def dotted_def ci_eq_def fold_case_def code_unit_def is_space_def
  is_digit_def is_word_def is_lower_alnum_def is_line_terminator_def

text \<open>
  When no pending cleanup throws, a failed connect is handled in full. For every token
  that passes validation and every transport whose connect fails, \<^verbatim>\<open>login\<close> stores the stripped
  token, attempts the connect, performs the whole of \<^verbatim>\<open>destroy()\<close> (the pending
  cleanups run, the pending set is emptied, the transport is torn down, token and
  password are null) and rejects with the error of the connect, unchanged.
\<close>

lemma login_connect_failure:
  assumes "token_argument c arg = JStr t" and "t \<noteq> []"
    and "ws_connect env (strip_scheme t) (ws c) = (Some e, w)"
    and "\<forall>f \<in> set (cleanups c). throws f = None"
  shows "login env arg c =
      (Inl e, snd (destroy (c\<lparr>token := Some (strip_scheme t), ws := w,
                              trace := trace c @ [Connect (strip_scheme t)]\<rparr>)))
    \<and> fst (destroy (c\<lparr>token := Some (strip_scheme t), ws := w,
                       trace := trace c @ [Connect (strip_scheme t)]\<rparr>)) = Inr ()
    \<and> token (snd (login env arg c)) = None
    \<and> password (snd (login env arg c)) = JNull
    \<and> cleanups (snd (login env arg c)) = []
    \<and> ws_destroyed (ws (snd (login env arg c)))
    \<and> trace (snd (login env arg c))
        = trace c @ Connect (strip_scheme t) # map Invoke (cleanups c)"
proof -
  let ?c2 = "c\<lparr>token := Some (strip_scheme t), ws := w,
               trace := trace c @ [Connect (strip_scheme t)]\<rparr>"
  have ok: "\<forall>f \<in> set (cleanups ?c2). throws f = None"
    using assms(4) by simp
  have l: "login env arg c = (case destroy ?c2 of
             (Inl e', c3) \<Rightarrow> (Inl e', c3) | (Inr _, c3) \<Rightarrow> (Inl e, c3))"
    using login_string [of arg c t env] assms(1-3)
    by (simp add: token_argument_def Let_def)
  show ?thesis
    unfolding l destroy_all_return [OF ok] by simp
qed

text \<open>The same at a client that holds a token, a password and one cleanup.\<close>

lemma login_connect_failure_witness:
  "fst (login offline_env (JStr ''Bot abc'') logged_in_client) = Inl (Thrown 1006)
   \<and> token (snd (login offline_env (JStr ''Bot abc'') logged_in_client)) = None
   \<and> password (snd (login offline_env (JStr ''Bot abc'') logged_in_client)) = JNull
   \<and> trace (snd (login offline_env (JStr ''Bot abc'') logged_in_client))
       = [Connect ''abc'', Invoke good_cleanup]"
proof -
  have s: "strip_scheme ''Bot abc'' = ''abc''"
    by (simp add: strip_scheme_def string_eval)
  have h1: "token_argument logged_in_client (JStr ''Bot abc'') = JStr ''Bot abc''"
    by (simp add: token_argument_def)
  have h2: "''Bot abc'' \<noteq> []" by simp
  have h3: "ws_connect offline_env (strip_scheme ''Bot abc'') (ws logged_in_client)
      = (Some (Thrown 1006), (ws logged_in_client)\<lparr>ws_status := DISCONNECTED\<rparr>)"
    by (simp add: offline_env_def online_env_def)
  have h4: "\<forall>f \<in> set (cleanups logged_in_client). throws f = None"
    by (simp add: logged_in_client_def good_cleanup_def)
  have tr: "trace logged_in_client = []" and cl: "cleanups logged_in_client = [good_cleanup]"
    by (simp_all add: logged_in_client_def fresh_client_def)
  note th = login_connect_failure [OF h1 h2 h3 h4]
  let ?r = "login offline_env (JStr ''Bot abc'') logged_in_client"
  have a1: "fst ?r = Inl (Thrown 1006)"
    using th [THEN conjunct1] by simp
  have a2: "token (snd ?r) = None" and a3: "password (snd ?r) = JNull"
    using th by blast+
  have "trace (snd ?r) = trace logged_in_client @
      Connect (strip_scheme ''Bot abc'') # map Invoke (cleanups logged_in_client)"
    using th by blast
  then have a4: "trace (snd ?r) = [Connect ''abc'', Invoke good_cleanup]"
    by (simp add: s tr cl)
  show ?thesis
    using a1 a2 a3 a4 by blast
qed

text \<open>
  C1. The code at a failed connect on a client with a pending cleanup that throws. The
  claim asks for a full \<^verbatim>\<open>destroy()\<close> and then the connect error, unchanged. The catch
  block of \<^verbatim>\<open>login\<close> calls \<^verbatim>\<open>destroy()\<close>, which stops at the throwing cleanup: the
  caller gets the cleanup's error in place of the connect error, and the token and the
  password stay.
\<close>

theorem login_failure_with_throwing_cleanup:
  "fst (ws_connect offline_env ''abc'' (ws fragile_client)) = Some (Thrown 1006)
   \<and> fst (login offline_env (JStr ''abc'') fragile_client) = Inl (Thrown 7)
   \<and> token (snd (login offline_env (JStr ''abc'') fragile_client)) = Some ''abc''
   \<and> password (snd (login offline_env (JStr ''abc'') fragile_client)) = JStr ''pw''"
  by (simp add: login_def destroy_def strip_scheme_def string_eval offline_env_def online_env_def
      fragile_client_def logged_in_client_def fresh_client_def good_cleanup_def bad_cleanup_def
      nullable_def Let_def)

text \<open>
  So at this client the error \<^verbatim>\<open>login\<close> rejects with is not the error of the connect, and
  the token and the password are not null.
\<close>

theorem login_failure_with_throwing_cleanup_witness:
  "fst (login offline_env (JStr ''abc'') fragile_client)
     \<noteq> Inl (the (fst (ws_connect offline_env ''abc'' (ws fragile_client))))
   \<and> token (snd (login offline_env (JStr ''abc'') fragile_client)) \<noteq> None
   \<and> password (snd (login offline_env (JStr ''abc'') fragile_client)) \<noteq> JNull"
  using login_failure_with_throwing_cleanup by simp

text \<open>
  C6, as the code has it. \<^verbatim>\<open>login\<close> takes its argument, or the stored token when the
  argument is undefined. If that value is empty or not a string, it fails with
  \<^verbatim>\<open>TOKEN_INVALID\<close> and touches nothing, so no connect and no request is made. If it
  is a non-empty string, \<^verbatim>\<open>login\<close> removes a leading \<^verbatim>\<open>Bot\<close> or \<^verbatim>\<open>Bearer\<close>, in any
  case of the letters, together with all the white space that follows (there may be
  none), stores the result as the token, connects with it and, when the connect
  succeeds, returns it. In particular \<^verbatim>\<open>"Bot "\<close> and \<^verbatim>\<open>"Bearer "\<close> are removed.
\<close>

theorem login_token_handling:
  "(\<not> truthy (token_argument c arg) \<or> typeof (token_argument c arg) \<noteq> ''string''
      \<longrightarrow> login env arg c = (Inl InvalidTokenError, c))
   \<and> (token_argument c arg = JStr t \<and> t \<noteq> []
        \<and> fst (ws_connect env (strip_scheme t) (ws c)) = None
      \<longrightarrow> login env arg c =
            (Inr (strip_scheme t),
             c\<lparr>token := Some (strip_scheme t),
               ws := snd (ws_connect env (strip_scheme t) (ws c)),
               trace := trace c @ [Connect (strip_scheme t)]\<rparr>))
   \<and> strip_scheme (''Bot '' @ r) = dropWhile is_space r
   \<and> strip_scheme (''Bearer '' @ r) = dropWhile is_space r
   \<and> strip_scheme t =
       (if 3 \<le> length t \<and> list_all2 ci_eq ''Bot'' (take 3 t)
          then dropWhile is_space (drop 3 t)
        else if 6 \<le> length t \<and> list_all2 ci_eq ''Bearer'' (take 6 t)
          then dropWhile is_space (drop 6 t)
        else t)"
proof -
  have a: "\<not> truthy (token_argument c arg) \<or> typeof (token_argument c arg) \<noteq> ''string''
      \<longrightarrow> login env arg c = (Inl InvalidTokenError, c)"
    using login_invalid [of arg c env] by (simp add: token_argument_def)
  have b: "token_argument c arg = JStr t \<and> t \<noteq> []
        \<and> fst (ws_connect env (strip_scheme t) (ws c)) = None
      \<longrightarrow> login env arg c =
            (Inr (strip_scheme t),
             c\<lparr>token := Some (strip_scheme t),
               ws := snd (ws_connect env (strip_scheme t) (ws c)),
               trace := trace c @ [Connect (strip_scheme t)]\<rparr>)"
    using login_string [of arg c t env] by (simp add: token_argument_def Let_def)
  show ?thesis
    using a b strip_scheme_Bot [of r] strip_scheme_Bearer [of r] strip_scheme_unfold [of t]
    by blast
qed

text \<open>
  The theorem at a number, at the empty string and at a token with a scheme.
\<close>

theorem login_token_handling_witness:
  "login online_env (JNum (Fin 5)) fresh_client = (Inl InvalidTokenError, fresh_client)
   \<and> login online_env (JStr []) fresh_client = (Inl InvalidTokenError, fresh_client)
   \<and> fst (login online_env (JStr ''Bearer abc'') fresh_client) = Inr ''abc''
   \<and> token (snd (login online_env (JStr ''Bearer abc'') fresh_client)) = Some ''abc''
   \<and> trace (snd (login online_env (JStr ''Bearer abc'') fresh_client)) = [Connect ''abc'']"
proof -
  have s: "strip_scheme ''Bearer abc'' = ''abc''"
    by (simp add: strip_scheme_def string_eval)
  have tr: "trace fresh_client = []"
    by (simp add: fresh_client_def)
  have n: "\<not> truthy (token_argument fresh_client (JNum (Fin 5)))
      \<or> typeof (token_argument fresh_client (JNum (Fin 5))) \<noteq> ''string''"
    by (simp add: token_argument_def)
  have e: "\<not> truthy (token_argument fresh_client (JStr []))
      \<or> typeof (token_argument fresh_client (JStr [])) \<noteq> ''string''"
    by (simp add: token_argument_def)
  have g: "token_argument fresh_client (JStr ''Bearer abc'') = JStr ''Bearer abc''
      \<and> ''Bearer abc'' \<noteq> []
      \<and> fst (ws_connect online_env (strip_scheme ''Bearer abc'') (ws fresh_client)) = None"
    by (simp add: token_argument_def online_env_def)
  have a1: "login online_env (JNum (Fin 5)) fresh_client = (Inl InvalidTokenError, fresh_client)"
    using login_token_handling [of fresh_client "JNum (Fin 5)" online_env] n by blast
  have a2: "login online_env (JStr []) fresh_client = (Inl InvalidTokenError, fresh_client)"
    using login_token_handling [of fresh_client "JStr []" online_env] e by blast
  have "login online_env (JStr ''Bearer abc'') fresh_client =
            (Inr (strip_scheme ''Bearer abc''),
             fresh_client\<lparr>token := Some (strip_scheme ''Bearer abc''),
               ws := snd (ws_connect online_env (strip_scheme ''Bearer abc'') (ws fresh_client)),
               trace := trace fresh_client @ [Connect (strip_scheme ''Bearer abc'')]\<rparr>)"
    using login_token_handling [of fresh_client "JStr ''Bearer abc''" online_env "''Bearer abc''"] g
    by blast
  then have a3: "fst (login online_env (JStr ''Bearer abc'') fresh_client) = Inr ''abc''"
    and a4: "token (snd (login online_env (JStr ''Bearer abc'') fresh_client)) = Some ''abc''"
    and a5: "trace (snd (login online_env (JStr ''Bearer abc'') fresh_client)) = [Connect ''abc'']"
    by (simp_all add: s tr)
  show ?thesis
    using a1 a2 a3 a4 a5 by blast
qed

text \<open>
  C6, as stated, fails twice. An argument that is undefined is not a string, and
  \<^verbatim>\<open>login\<close> succeeds with the stored token. And \<^verbatim>\<open>"Botx"\<close>, which has neither prefix
  the claim names, is stored and returned as \<^verbatim>\<open>"x"\<close>.
\<close>

theorem login_default_and_prefix:
  "fst (login online_env JUndefined logged_in_client) = Inr ''abc''
   \<and> trace (snd (login online_env JUndefined logged_in_client)) = [Connect ''abc'']
   \<and> strip_scheme_spec ''Botx'' = ''Botx''
   \<and> fst (login online_env (JStr ''Botx'') fresh_client) = Inr ''x''
   \<and> token (snd (login online_env (JStr ''Botx'') fresh_client)) = Some ''x''"
  by (simp add: login_def strip_scheme_def strip_scheme_spec_def string_eval online_env_def
      logged_in_client_def fresh_client_def nullable_def Let_def)

section \<open>Facts about logout and remoteAuth\<close>

text \<open>
  C8. \<^verbatim>\<open>logout()\<close> issues the logout request first. If the request is rejected,
  \<^verbatim>\<open>logout\<close> rejects with that error and \<^verbatim>\<open>destroy()\<close> is not reached: but for the
  request on the trace the client is as it was, with its token, password, cleanups,
  caches and timers. If the request is answered, \<^verbatim>\<open>logout\<close> is \<^verbatim>\<open>destroy()\<close> on the
  client that has issued it.
\<close>

theorem logout_then_destroy:
  "(api env (trace c) AuthLogout = Inl e
      \<longrightarrow> logout env c = (Inl e, c\<lparr>trace := trace c @ [Request AuthLogout]\<rparr>)
        \<and> token (snd (logout env c)) = token c
        \<and> password (snd (logout env c)) = password c
        \<and> caches (snd (logout env c)) = caches c
        \<and> cleanups (snd (logout env c)) = cleanups c
        \<and> sweepMessageInterval (snd (logout env c)) = sweepMessageInterval c
        \<and> sweepers_running (snd (logout env c)) = sweepers_running c
        \<and> rest_sweeping (snd (logout env c)) = rest_sweeping c
        \<and> ws (snd (logout env c)) = ws c)
   \<and> (api env (trace c) AuthLogout = Inr r
      \<longrightarrow> logout env c = destroy (c\<lparr>trace := trace c @ [Request AuthLogout]\<rparr>))"
  by (simp add: logout_def post_def)

text \<open>
  The theorem at a service that is down and at one that answers.
\<close>

theorem logout_then_destroy_witness:
  "logout offline_env logged_in_client
     = (Inl (Thrown 503), logged_in_client\<lparr>trace := [Request AuthLogout]\<rparr>)
   \<and> token (snd (logout offline_env logged_in_client)) = Some ''abc''
   \<and> password (snd (logout offline_env logged_in_client)) = JStr ''pw''
   \<and> cleanups (snd (logout offline_env logged_in_client)) = [good_cleanup]
   \<and> fst (logout online_env logged_in_client) = Inr ()
   \<and> trace (snd (logout online_env logged_in_client)) = [Request AuthLogout, Invoke good_cleanup]
   \<and> token (snd (logout online_env logged_in_client)) = None"
proof -
  have tr: "trace logged_in_client = []"
    by (simp add: logged_in_client_def fresh_client_def)
  have f: "api offline_env (trace logged_in_client) AuthLogout = Inl (Thrown 503)"
    by (simp add: offline_env_def online_env_def)
  have g: "api online_env (trace logged_in_client) AuthLogout = Inr (example_answer AuthLogout)"
    by (simp add: online_env_def)
  have a: "logout offline_env logged_in_client
      = (Inl (Thrown 503), logged_in_client\<lparr>trace := trace logged_in_client @ [Request AuthLogout]\<rparr>)"
    using logout_then_destroy [of offline_env logged_in_client "Thrown 503"] f by blast
  have b: "logout online_env logged_in_client
      = destroy (logged_in_client\<lparr>trace := trace logged_in_client @ [Request AuthLogout]\<rparr>)"
    using logout_then_destroy [of online_env logged_in_client _ "example_answer AuthLogout"] g
    by blast
  show ?thesis
    unfolding a b
    by (simp add: tr destroy_def logged_in_client_def fresh_client_def good_cleanup_def Let_def)
qed

text \<open>
  The handshake on a ready client: the fingerprint is posted, and without forced
  acceptance the caller gets the two continuations and neither has run.
\<close>

lemma remoteAuth_handshake_example:
  "remoteAuth online_env ''https://discord.com/ra/abc123'' (JBool False) ready_client
     = (Inr (Confirm (JStr ''h1'')),
        ready_client\<lparr>trace := [Request (RemoteAuthInit ''abc123'')]\<rparr>)"
  by (simp add: remoteAuth_def isReady_def post_def online_env_def example_URL_parse_def
      ready_client_def fresh_client_def Let_def)

lemma ra_path_iff:
  "(prefix ''/ra/'' p \<and> 4 < length p) = (\<exists>r. r \<noteq> [] \<and> p = ''/ra/'' @ r)"
  by (auto simp: prefix_def)

text \<open>
  C9, as the code has it. When the client is ready, for every URL that parses and
  whose host is not one of the two allowed domains or whose path is not \<^verbatim>\<open>/ra/\<close>
  followed by a non-empty remainder, \<^verbatim>\<open>remoteAuth\<close> rejects with
  \<^verbatim>\<open>INVALID_REMOTE_AUTH_URL\<close> and the client is unchanged: no request has been made.
\<close>

theorem remoteAuth_invalid_url:
  assumes "isReady c" and "URL_parse env u = Some url"
    and "hostname url \<notin> {''discordapp.com'', ''discord.com''}
         \<or> \<not> (\<exists>r. r \<noteq> [] \<and> pathname url = ''/ra/'' @ r)"
  shows "remoteAuth env u forceAccept c = (Inl InvalidRemoteAuthUrlError, c)"
proof -
  have "hostname url \<notin> set [''discordapp.com'', ''discord.com'']
      \<or> \<not> prefix ''/ra/'' (pathname url) \<or> length (pathname url) \<le> 4"
    using assms(3) ra_path_iff [of "pathname url"] by auto
  then show ?thesis
    using assms(1,2) by (simp add: remoteAuth_def)
qed

text \<open>
  The theorem at a foreign host and at a path with an empty remainder.
\<close>

theorem remoteAuth_invalid_url_witness:
  "remoteAuth online_env ''https://evil.example/ra/abc123'' (JBool False) ready_client
     = (Inl InvalidRemoteAuthUrlError, ready_client)
   \<and> remoteAuth online_env ''https://discord.com/ra/'' (JBool True) ready_client
     = (Inl InvalidRemoteAuthUrlError, ready_client)"
proof -
  have r: "isReady ready_client"
    by (simp add: isReady_def ready_client_def)
  have u1: "URL_parse online_env ''https://evil.example/ra/abc123''
      = Some \<lparr>hostname = ''evil.example'', pathname = ''/ra/abc123''\<rparr>"
    by (simp add: online_env_def example_URL_parse_def)
  have u2: "URL_parse online_env ''https://discord.com/ra/''
      = Some \<lparr>hostname = ''discord.com'', pathname = ''/ra/''\<rparr>"
    by (simp add: online_env_def example_URL_parse_def)
  have b1: "hostname \<lparr>hostname = ''evil.example'', pathname = ''/ra/abc123''\<rparr>
        \<notin> {''discordapp.com'', ''discord.com''}
      \<or> \<not> (\<exists>r. r \<noteq> [] \<and> pathname \<lparr>hostname = ''evil.example'', pathname = ''/ra/abc123''\<rparr>
            = ''/ra/'' @ r)"
    by simp
  have b2: "hostname \<lparr>hostname = ''discord.com'', pathname = ''/ra/''\<rparr>
        \<notin> {''discordapp.com'', ''discord.com''}
      \<or> \<not> (\<exists>r. r \<noteq> [] \<and> pathname \<lparr>hostname = ''discord.com'', pathname = ''/ra/''\<rparr>
            = ''/ra/'' @ r)"
    by simp
  show ?thesis
    using remoteAuth_invalid_url [OF r u1 b1, of "JBool False"]
      remoteAuth_invalid_url [OF r u2 b2, of "JBool True"]
    by blast
qed

text \<open>
  C9, as stated, fails on a client that is not ready: the URL with the foreign host is
  rejected with \<^verbatim>\<open>CLIENT_NOT_READY\<close>, not with \<^verbatim>\<open>INVALID_REMOTE_AUTH_URL\<close>.
\<close>

theorem remoteAuth_evil_host_not_ready:
  "map_option hostname (URL_parse online_env ''https://evil.example/ra/abc123'')
     = Some ''evil.example''
   \<and> \<not> isReady fresh_client
   \<and> remoteAuth online_env ''https://evil.example/ra/abc123'' (JBool False) fresh_client
     = (Inl ClientNotReadyError, fresh_client)
   \<and> ClientNotReadyError \<noteq> InvalidRemoteAuthUrlError"
  by (simp add: remoteAuth_def isReady_def fresh_client_def online_env_def example_URL_parse_def)

text \<open>
  C10. Whenever the status of the transport is not READY, \<^verbatim>\<open>remoteAuth\<close> rejects with
  \<^verbatim>\<open>CLIENT_NOT_READY\<close> and leaves the client unchanged, whatever the URL, whatever
  \<^verbatim>\<open>forceAccept\<close>, and whatever the URL parser and the REST layer would do: the URL has
  not been parsed and no request has been made.
\<close>

theorem remoteAuth_not_ready:
  "ws_status (ws c) \<noteq> READY
     \<Longrightarrow> remoteAuth env u forceAccept c = (Inl ClientNotReadyError, c)"
  by (simp add: remoteAuth_def isReady_def)

text \<open>
  The theorem at a client that has not connected.
\<close>

theorem remoteAuth_not_ready_witness:
  "ws_status (ws fresh_client) \<noteq> READY
   \<and> remoteAuth online_env ''https://discord.com/ra/abc123'' (JBool True) fresh_client
     = (Inl ClientNotReadyError, fresh_client)
   \<and> remoteAuth offline_env ''not a url'' JUndefined fresh_client
     = (Inl ClientNotReadyError, fresh_client)"
proof -
  have n: "ws_status (ws fresh_client) \<noteq> READY"
    by (simp add: fresh_client_def)
  show ?thesis
    using n remoteAuth_not_ready [OF n, of online_env "''https://discord.com/ra/abc123''" "JBool True"]
      remoteAuth_not_ready [OF n, of offline_env "''not a url''" JUndefined]
    by blast
qed

section \<open>Facts about normalLogin\<close>

text \<open>
  \<^verbatim>\<open>test\<close> of an unanchored pattern searches: it holds when the pattern matches
  somewhere in the string.
\<close>

lemma regex_test_iff: "regex_test m s = (\<exists>pre suf. s = pre @ suf \<and> m suf)"
proof (induction s)
  case Nil
  show ?case by simp
next
  case (Cons c cs)
  show ?case
  proof
    assume "regex_test m (c # cs)"
    then consider "m (c # cs)" | "regex_test m cs" by auto
    then show "\<exists>pre suf. c # cs = pre @ suf \<and> m suf"
    proof cases
      case 1
      then have "c # cs = [] @ (c # cs) \<and> m (c # cs)" by simp
      then show ?thesis by blast
    next
      case 2
      then obtain pre suf where "cs = pre @ suf" and "m suf"
        using Cons.IH by blast
      then have "c # cs = (c # pre) @ suf \<and> m suf" by simp
      then show ?thesis by blast
    qed
  next
    assume "\<exists>pre suf. c # cs = pre @ suf \<and> m suf"
    then obtain pre suf where e: "c # cs = pre @ suf" and m: "m suf" by blast
    show "regex_test m (c # cs)"
    proof (cases pre)
      case Nil
      then have "suf = c # cs" using e by simp
      then show ?thesis using m by simp
    next
      case (Cons a pre')
      then have "cs = pre' @ suf" using e by simp
      then have "regex_test m cs" using m Cons.IH by blast
      then show ?thesis by simp
    qed
  qed
qed

lemma normal2fa_at_iff:
  "normal2fa_at s = (\<exists>d post. s = d @ post \<and> length d = 6 \<and> list_all is_digit d)"
proof
  assume "normal2fa_at s"
  then have "s = take 6 s @ drop 6 s \<and> length (take 6 s) = 6 \<and> list_all is_digit (take 6 s)"
    by (simp add: normal2fa_at_def)
  then show "\<exists>d post. s = d @ post \<and> length d = 6 \<and> list_all is_digit d"
    by blast
next
  assume "\<exists>d post. s = d @ post \<and> length d = 6 \<and> list_all is_digit d"
  then show "normal2fa_at s"
    by (auto simp: normal2fa_at_def)
qed

lemma backupCode_at_iff:
  "backupCode_at s =
     (\<exists>a b post. s = a @ ''-'' @ b @ post \<and> length a = 4 \<and> length b = 4
        \<and> list_all is_lower_alnum a \<and> list_all is_lower_alnum b)"
proof
  assume h: "backupCode_at s"
  have "s ! 4 # drop (Suc 4) s = drop 4 s"
    using h by (intro Cons_nth_drop_Suc) (simp add: backupCode_at_def)
  then have d4: "drop 4 s = CHR ''-'' # drop 5 s"
    using h by (simp add: backupCode_at_def)
  have "s = take 4 s @ drop 4 s" by simp
  also have "drop 4 s = ''-'' @ take 4 (drop 5 s) @ drop 4 (drop 5 s)"
    using d4 by (simp only: append_take_drop_id append_Cons append_Nil)
  finally have "s = take 4 s @ ''-'' @ take 4 (drop 5 s) @ drop 4 (drop 5 s)" .
  moreover have "length (take 4 s) = 4" and "length (take 4 (drop 5 s)) = 4"
    using h by (auto simp: backupCode_at_def)
  ultimately show "\<exists>a b post. s = a @ ''-'' @ b @ post \<and> length a = 4 \<and> length b = 4
        \<and> list_all is_lower_alnum a \<and> list_all is_lower_alnum b"
    using h unfolding backupCode_at_def by blast
next
  assume "\<exists>a b post. s = a @ ''-'' @ b @ post \<and> length a = 4 \<and> length b = 4
        \<and> list_all is_lower_alnum a \<and> list_all is_lower_alnum b"
  then show "backupCode_at s"
    by (auto simp: backupCode_at_def nth_append)
qed

lemma normal2fa_test_iff:
  "normal2fa_test m =
     (\<exists>pre d post. m = pre @ d @ post \<and> length d = 6 \<and> list_all is_digit d)"
  unfolding normal2fa_test_def regex_test_iff normal2fa_at_iff by blast

lemma backupCode_test_iff:
  "backupCode_test m =
     (\<exists>pre a b post. m = pre @ a @ ''-'' @ b @ post \<and> length a = 4 \<and> length b = 4
        \<and> list_all is_lower_alnum a \<and> list_all is_lower_alnum b)"
  unfolding backupCode_test_def regex_test_iff backupCode_at_iff by blast

lemma mfa_test_nonempty: "normal2fa_test m \<or> backupCode_test m \<Longrightarrow> m \<noteq> []"
  by (auto simp: normal2fa_test_def backupCode_test_def normal2fa_at_def backupCode_at_def)

lemma normalLogin_ticket:
  assumes "username = JStr u" and "u \<noteq> []"
    and "(if pw_arg = JUndefined then password c else pw_arg) = JStr p" and "p \<noteq> []"
    and "api env (trace c) (AuthLogin u p) = Inr data"
    and "\<not> truthy (data ''token'')" and "truthy (data ''ticket'')" and "truthy (data ''mfa'')"
  shows "normalLogin env username pw_arg mfaCode c =
    (let c2 = c\<lparr>trace := trace c @ [Request (AuthLogin u p)], password := JStr p\<rparr>
     in if \<not> truthy mfaCode \<or> typeof mfaCode \<noteq> ''string'' then (Inl MfaRequiredError, c2)
        else case mfaCode of
          JStr m \<Rightarrow>
            if normal2fa_test m \<or> backupCode_test m then
              (case post env (MfaTotp m (data ''ticket'')) c2 of
                 (Inl e, c3) \<Rightarrow> (Inl e, c3)
               | (Inr data2, c3) \<Rightarrow> login env (data2 ''token'') c3)
            else (Inl MfaRequiredError, c2)
        | _ \<Rightarrow> (Inl MfaRequiredError, c2))"
  using assms by (simp add: normalLogin_def post_def Let_def)

text \<open>
  C4, as the code has it. The credentials are non-empty strings and the first response
  carries no token, a ticket and the \<^verbatim>\<open>mfa\<close> flag. If the second-factor code is a
  string that contains six consecutive digits, or four characters of \<^verbatim>\<open>a-z0-9\<close>, a
  dash and four characters of \<^verbatim>\<open>a-z0-9\<close>, the MFA endpoint is called with that code and
  the ticket, and \<^verbatim>\<open>normalLogin\<close> is \<^verbatim>\<open>login\<close> of the token it returns (or rejects with
  the error of that request). Otherwise \<^verbatim>\<open>normalLogin\<close> rejects with
  \<^verbatim>\<open>LOGIN_FAILED_2FA\<close>, and the credential request is the only one made.
\<close>

theorem normalLogin_second_factor:
  assumes "username = JStr u" and "u \<noteq> []"
    and "(if pw_arg = JUndefined then password c else pw_arg) = JStr p" and "p \<noteq> []"
    and "api env (trace c) (AuthLogin u p) = Inr data"
    and "\<not> truthy (data ''token'')" and "truthy (data ''ticket'')" and "truthy (data ''mfa'')"
  shows
    "(mfaCode = JStr m
        \<and> ((\<exists>pre d post. m = pre @ d @ post \<and> length d = 6 \<and> list_all is_digit d)
           \<or> (\<exists>pre a b post. m = pre @ a @ ''-'' @ b @ post \<and> length a = 4 \<and> length b = 4
                 \<and> list_all is_lower_alnum a \<and> list_all is_lower_alnum b))
      \<longrightarrow> normalLogin env username pw_arg mfaCode c =
            (case api env (trace c @ [Request (AuthLogin u p)]) (MfaTotp m (data ''ticket'')) of
               Inl e \<Rightarrow>
                 (Inl e,
                  c\<lparr>password := JStr p,
                    trace := trace c @ [Request (AuthLogin u p),
                                          Request (MfaTotp m (data ''ticket''))]\<rparr>)
             | Inr data2 \<Rightarrow>
                 login env (data2 ''token'')
                   (c\<lparr>password := JStr p,
                    trace := trace c @ [Request (AuthLogin u p),
                                           Request (MfaTotp m (data ''ticket''))]\<rparr>)))
     \<and> (\<not> (\<exists>m'. mfaCode = JStr m'
             \<and> ((\<exists>pre d post. m' = pre @ d @ post \<and> length d = 6 \<and> list_all is_digit d)
                \<or> (\<exists>pre a b post. m' = pre @ a @ ''-'' @ b @ post \<and> length a = 4
                      \<and> length b = 4 \<and> list_all is_lower_alnum a \<and> list_all is_lower_alnum b)))
      \<longrightarrow> normalLogin env username pw_arg mfaCode c =
            (Inl MfaRequiredError,
             c\<lparr>password := JStr p,
                    trace := trace c @ [Request (AuthLogin u p)]\<rparr>))"
proof (intro conjI impI)
  assume h: "mfaCode = JStr m
        \<and> ((\<exists>pre d post. m = pre @ d @ post \<and> length d = 6 \<and> list_all is_digit d)
           \<or> (\<exists>pre a b post. m = pre @ a @ ''-'' @ b @ post \<and> length a = 4 \<and> length b = 4
                 \<and> list_all is_lower_alnum a \<and> list_all is_lower_alnum b))"
  then have t: "normal2fa_test m \<or> backupCode_test m"
    unfolding normal2fa_test_iff backupCode_test_iff by blast
  then have "m \<noteq> []" by (rule mfa_test_nonempty)
  then show "normalLogin env username pw_arg mfaCode c =
            (case api env (trace c @ [Request (AuthLogin u p)]) (MfaTotp m (data ''ticket'')) of
               Inl e \<Rightarrow>
                 (Inl e,
                  c\<lparr>password := JStr p,
                    trace := trace c @ [Request (AuthLogin u p),
                                          Request (MfaTotp m (data ''ticket''))]\<rparr>)
             | Inr data2 \<Rightarrow>
                 login env (data2 ''token'')
                   (c\<lparr>password := JStr p,
                    trace := trace c @ [Request (AuthLogin u p),
                                           Request (MfaTotp m (data ''ticket''))]\<rparr>))"
    using h t normalLogin_ticket [OF assms, of mfaCode]
    by (cases "api env (trace c @ [Request (AuthLogin u p)]) (MfaTotp m (data ''ticket''))")
       (simp_all add: post_def Let_def)
next
  assume n: "\<not> (\<exists>m'. mfaCode = JStr m'
             \<and> ((\<exists>pre d post. m' = pre @ d @ post \<and> length d = 6 \<and> list_all is_digit d)
                \<or> (\<exists>pre a b post. m' = pre @ a @ ''-'' @ b @ post \<and> length a = 4
                      \<and> length b = 4 \<and> list_all is_lower_alnum a \<and> list_all is_lower_alnum b)))"
  then have "\<And>m'. mfaCode = JStr m' \<Longrightarrow> \<not> (normal2fa_test m' \<or> backupCode_test m')"
    unfolding normal2fa_test_iff backupCode_test_iff by blast
  then show "normalLogin env username pw_arg mfaCode c =
            (Inl MfaRequiredError,
             c\<lparr>password := JStr p,
                    trace := trace c @ [Request (AuthLogin u p)]\<rparr>)"
    using normalLogin_ticket [OF assms, of mfaCode]
    by (cases mfaCode) (simp_all add: Let_def)
qed

text \<open>
  The theorem at the two scenarios of the specification: the code \<^verbatim>\<open>"123456"\<close> with
  ticket \<^verbatim>\<open>"t1"\<close>, and the code \<^verbatim>\<open>"abc"\<close>.
\<close>

theorem normalLogin_second_factor_witness:
  "fst (normalLogin online_env (JStr ''user'') (JStr ''pw'') (JStr ''123456'') fresh_client)
     = Inr ''tok2''
   \<and> trace (snd (normalLogin online_env (JStr ''user'') (JStr ''pw'') (JStr ''123456'')
                   fresh_client))
     = [Request (AuthLogin ''user'' ''pw''), Request (MfaTotp ''123456'' (JStr ''t1'')),
        Connect ''tok2'']
   \<and> normalLogin online_env (JStr ''user'') (JStr ''pw'') (JStr ''abc'') fresh_client
     = (Inl MfaRequiredError,
        fresh_client\<lparr>password := JStr ''pw'', trace := [Request (AuthLogin ''user'' ''pw'')]\<rparr>)"
proof -
  let ?data = "example_answer (AuthLogin ''user'' ''pw'')"
  have tr: "trace fresh_client = []"
    by (simp add: fresh_client_def)
  have h1: "JStr ''user'' = JStr ''user''" and h2: "''user'' \<noteq> []"
    and h3: "(if JStr ''pw'' = JUndefined then password fresh_client else JStr ''pw'') = JStr ''pw''"
    and h4: "''pw'' \<noteq> []"
    by simp_all
  have h5: "api online_env (trace fresh_client) (AuthLogin ''user'' ''pw'') = Inr ?data"
    by (simp add: online_env_def)
  have h6: "\<not> truthy (?data ''token'')" and h7: "truthy (?data ''ticket'')"
    and h8: "truthy (?data ''mfa'')"
    by simp_all
  note th = normalLogin_second_factor [OF h1 h2 h3 h4 h5 h6 h7 h8]
  have "normal2fa_test ''123456''"
    by (simp add: normal2fa_test_def normal2fa_at_def string_eval)
  then have p1: "\<exists>pre d post. ''123456'' = pre @ d @ post \<and> length d = 6 \<and> list_all is_digit d"
    by (simp only: normal2fa_test_iff)
  have "\<not> normal2fa_test ''abc''" and "\<not> backupCode_test ''abc''"
    by (simp_all add: normal2fa_test_def normal2fa_at_def backupCode_test_def backupCode_at_def)
  then have p2: "\<not> (\<exists>m'. JStr ''abc'' = JStr m'
             \<and> ((\<exists>pre d post. m' = pre @ d @ post \<and> length d = 6 \<and> list_all is_digit d)
                \<or> (\<exists>pre a b post. m' = pre @ a @ ''-'' @ b @ post \<and> length a = 4
                      \<and> length b = 4 \<and> list_all is_lower_alnum a \<and> list_all is_lower_alnum b)))"
    unfolding normal2fa_test_iff backupCode_test_iff by auto
  have a: "normalLogin online_env (JStr ''user'') (JStr ''pw'') (JStr ''123456'') fresh_client =
      (case api online_env (trace fresh_client @ [Request (AuthLogin ''user'' ''pw'')])
              (MfaTotp ''123456'' (?data ''ticket'')) of
         Inl e \<Rightarrow>
           (Inl e,
            fresh_client\<lparr>password := JStr ''pw'',
              trace := trace fresh_client @ [Request (AuthLogin ''user'' ''pw''),
                        Request (MfaTotp ''123456'' (?data ''ticket''))]\<rparr>)
       | Inr data2 \<Rightarrow>
           login online_env (data2 ''token'')
             (fresh_client\<lparr>password := JStr ''pw'',
                trace := trace fresh_client @ [Request (AuthLogin ''user'' ''pw''),
                          Request (MfaTotp ''123456'' (?data ''ticket''))]\<rparr>))"
    using th [of "JStr ''123456''" "''123456''"] p1 by blast
  have b: "normalLogin online_env (JStr ''user'') (JStr ''pw'') (JStr ''abc'') fresh_client =
      (Inl MfaRequiredError,
       fresh_client\<lparr>password := JStr ''pw'',
         trace := trace fresh_client @ [Request (AuthLogin ''user'' ''pw'')]\<rparr>)"
    using th [of "JStr ''abc''"] p2 by blast
  have s: "strip_scheme ''Bot tok2'' = ''tok2''"
    by (simp add: strip_scheme_def string_eval)
  show ?thesis
    unfolding a b
    by (simp add: tr s online_env_def login_def Let_def)
qed

text \<open>
  C4, as stated, fails: \<^verbatim>\<open>"ABCD-EFGH"\<close> is four alphanumeric characters, a dash and
  four alphanumeric characters, and \<^verbatim>\<open>normalLogin\<close> rejects it, because the pattern
  names the lower-case letters only.
\<close>

theorem normalLogin_uppercase_backup_code:
  "spec_backup_code ''ABCD-EFGH''
   \<and> normalLogin online_env (JStr ''user'') (JStr ''pw'') (JStr ''ABCD-EFGH'') fresh_client
     = (Inl MfaRequiredError,
        fresh_client\<lparr>password := JStr ''pw'', trace := [Request (AuthLogin ''user'' ''pw'')]\<rparr>)"
  by (simp add: spec_backup_code_def is_alnum_def normalLogin_def post_def online_env_def
      fresh_client_def normal2fa_test_def normal2fa_at_def backupCode_test_def backupCode_at_def
      string_eval Let_def)

section \<open>Facts about redeemNitro\<close>

lemma redeemed_codes_append:
  "redeemed_codes (a @ b) = redeemed_codes a @ redeemed_codes b"
  by (induction a rule: redeemed_codes.induct) simp_all

lemma redeemed_codes_requests:
  "redeemed_codes (map (\<lambda>k. Request (GiftRedeem k ch)) ks) = ks"
  by (induction ks) simp_all

lemma posted_refl: "posted c c []"
  by (simp add: posted_def)

lemma posted_trans:
  assumes "posted c c1 n1" and "posted c1 c2 n2"
  shows "posted c c2 (n1 @ n2)"
  using assms by (auto simp: posted_def)

lemma posted_step:
  assumes "code \<notin> set (usedCodes c)"
  shows "posted c
     ((snd (post env (GiftRedeem code ch) c))
        \<lparr>usedCodes := usedCodes (snd (post env (GiftRedeem code ch) c)) @ [code]\<rparr>)
     [code]"
  using assms by (simp add: posted_def post_def redeemed_codes_append)

lemma redeem_loop_posted:
  "\<exists>new. posted c (snd (redeem_loop env ch fail codes redeem c)) new"
proof (induction codes arbitrary: redeem c)
  case Nil
  show ?case using posted_refl by auto
next
  case (Cons code rest)
  show ?case
  proof (cases "code \<in> set (usedCodes c)")
    case True
    then show ?thesis using Cons.IH by simp
  next
    case False
    let ?c2 = "(snd (post env (GiftRedeem code ch) c))
        \<lparr>usedCodes := usedCodes (snd (post env (GiftRedeem code ch) c)) @ [code]\<rparr>"
    have st: "posted c ?c2 [code]"
      using False by (rule posted_step)
    obtain r c1 where p: "post env (GiftRedeem code ch) c = (r, c1)"
      by (cases "post env (GiftRedeem code ch) c")
    show ?thesis
    proof (cases r)
      case (Inr a)
      obtain new where "posted ?c2 (snd (redeem_loop env ch fail rest True ?c2)) new"
        using Cons.IH [where c = ?c2 and redeem = True] by blast
      then have "posted c (snd (redeem_loop env ch fail rest True ?c2)) ([code] @ new)"
        using st posted_trans by blast
      then show ?thesis
        using False p Inr by auto
    next
      case (Inl e)
      show ?thesis
      proof (cases fail)
        case True
        then show ?thesis
          using False p Inl st by (auto simp: Let_def)
      next
        case nf: False
        obtain new where "posted ?c2 (snd (redeem_loop env ch fail rest redeem ?c2)) new"
          using Cons.IH [where c = ?c2 and redeem = redeem] by blast
        then have "posted c (snd (redeem_loop env ch fail rest redeem ?c2)) ([code] @ new)"
          using st posted_trans by blast
        then show ?thesis
          using False p Inl nf by (auto simp: Let_def)
      qed
    qed
  qed
qed

lemma redeemNitro_posted:
  "\<exists>new. posted c (snd (redeemNitro env nitro channel failIfNotExists c)) new"
proof (cases nitro)
  case (JStr str)
  show ?thesis
  proof (cases "match_gift str")
    case None
    then show ?thesis
      using JStr posted_refl by (auto simp: redeemNitro_def Let_def)
  next
    case (Some nitroArray)
    then show ?thesis
      using JStr redeem_loop_posted by (simp add: redeemNitro_def Let_def)
  qed
qed (auto simp: redeemNitro_def posted_def)

lemma lifetime_posted:
  "HourlyTick \<notin> set ops \<Longrightarrow> \<exists>new. posted c (lifetime env ops c) new"
proof (induction ops arbitrary: c)
  case Nil
  show ?case using posted_refl by auto
next
  case (Cons s ss)
  then obtain nitro channel f where s: "s = Redeem nitro channel f"
    by (cases s) auto
  obtain n1 where a: "posted c (lifetime_step env s c) n1"
    using s redeemNitro_posted [of c env nitro channel f] by auto
  obtain n2 where "posted (lifetime_step env s c) (lifetime env ss (lifetime_step env s c)) n2"
    using Cons by auto
  then have "posted c (lifetime env (s # ss) c) (n1 @ n2)"
    using a posted_trans by auto
  then show ?case by blast
qed

lemma posted_redeemed_since: "posted c c' new \<Longrightarrow> redeemed_since c c' = new"
  by (simp add: posted_def redeemed_since_def)

lemma gift_text_codes:
  "map_option (map strip_url) (match_gift ''discord.gift/ABCDEFGHIJKLMNOPQ'')
     = Some [''ABCDEFGHIJKLMNOPQ'']"
  by (simp add: match_gift_def gift_at_def gift_tail_def url_at_def strip_url_def string_eval)

lemma redeemNitro_gift_text:
  "redeemNitro env (JStr ''discord.gift/ABCDEFGHIJKLMNOPQ'') channel failIfNotExists c =
     redeem_loop env (if truthy (resolveId env channel) then resolveId env channel else JNull)
       (if failIfNotExists = JUndefined then True else truthy failIfNotExists)
       [''ABCDEFGHIJKLMNOPQ''] False c"
  using gift_text_codes
  by (cases "match_gift ''discord.gift/ABCDEFGHIJKLMNOPQ''") (simp_all add: redeemNitro_def Let_def)

text \<open>
  C2, as the code has it. Over any sequence of calls of \<^verbatim>\<open>redeemNitro\<close>, one after
  the other, with no tick of the hourly timer between them: the redemption requests
  issued are for different codes, none is for a code that was already used, and each
  code requested is marked used, whether its request succeeded or failed. So a code
  redeemed once is not requested again before the next reset.
\<close>

theorem redeem_once_between_resets:
  assumes "HourlyTick \<notin> set ops"
  shows "redeemed_codes (trace (lifetime env ops c))
       = redeemed_codes (trace c) @ redeemed_since c (lifetime env ops c)
     \<and> distinct (redeemed_since c (lifetime env ops c))
     \<and> set (redeemed_since c (lifetime env ops c)) \<inter> set (usedCodes c) = {}
     \<and> usedCodes (lifetime env ops c) = usedCodes c @ redeemed_since c (lifetime env ops c)"
proof -
  obtain new where p: "posted c (lifetime env ops c) new"
    using lifetime_posted [OF assms] by blast
  then have "redeemed_since c (lifetime env ops c) = new"
    by (rule posted_redeemed_since)
  then show ?thesis
    using p by (simp add: posted_def)
qed

text \<open>
  The theorem at a code redeemed twice, first against a service that answers and then
  against one that is down (and \<^verbatim>\<open>failIfNotExists\<close> left at its default): one request
  in either case.
\<close>

theorem redeem_once_between_resets_witness:
  "HourlyTick \<notin> set [Redeem (JStr ''discord.gift/ABCDEFGHIJKLMNOPQ'') JUndefined JUndefined,
                       Redeem (JStr ''discord.gift/ABCDEFGHIJKLMNOPQ'') JUndefined JUndefined]
   \<and> redeemed_codes (trace (lifetime online_env
         [Redeem (JStr ''discord.gift/ABCDEFGHIJKLMNOPQ'') JUndefined JUndefined,
          Redeem (JStr ''discord.gift/ABCDEFGHIJKLMNOPQ'') JUndefined JUndefined] fresh_client))
       = [''ABCDEFGHIJKLMNOPQ'']
   \<and> redeemed_codes (trace (lifetime offline_env
         [Redeem (JStr ''discord.gift/ABCDEFGHIJKLMNOPQ'') JUndefined JUndefined,
          Redeem (JStr ''discord.gift/ABCDEFGHIJKLMNOPQ'') JUndefined JUndefined] fresh_client))
       = [''ABCDEFGHIJKLMNOPQ'']
   \<and> usedCodes (lifetime offline_env
         [Redeem (JStr ''discord.gift/ABCDEFGHIJKLMNOPQ'') JUndefined JUndefined,
          Redeem (JStr ''discord.gift/ABCDEFGHIJKLMNOPQ'') JUndefined JUndefined] fresh_client)
       = [''ABCDEFGHIJKLMNOPQ'']"
proof -
  let ?ops = "[Redeem (JStr ''discord.gift/ABCDEFGHIJKLMNOPQ'') JUndefined JUndefined,
               Redeem (JStr ''discord.gift/ABCDEFGHIJKLMNOPQ'') JUndefined JUndefined]"
  have h: "HourlyTick \<notin> set ?ops" by simp
  have on: "redeemed_since fresh_client (lifetime online_env ?ops fresh_client)
      = [''ABCDEFGHIJKLMNOPQ'']"
    by (simp add: redeemed_since_def redeemNitro_gift_text post_def online_env_def
        fresh_client_def)
  have off: "redeemed_since fresh_client (lifetime offline_env ?ops fresh_client)
      = [''ABCDEFGHIJKLMNOPQ'']"
    by (simp add: redeemed_since_def redeemNitro_gift_text post_def offline_env_def online_env_def
        fresh_client_def)
  have e: "redeemed_codes (trace fresh_client) = []" "usedCodes fresh_client = []"
    by (simp_all add: fresh_client_def)
  show ?thesis
    using h redeem_once_between_resets [OF h, of online_env fresh_client]
      redeem_once_between_resets [OF h, of offline_env fresh_client]
    by (simp only: on off e append_Nil) simp
qed

text \<open>
  C2, as stated, fails: after a tick of the hourly timer, which empties
  \<^verbatim>\<open>usedCodes\<close>, the same code is requested a second time in the same client.
\<close>

theorem redeem_again_after_hourly_reset:
  "redeemed_codes (trace (lifetime online_env
      [Redeem (JStr ''discord.gift/ABCDEFGHIJKLMNOPQ'') JUndefined JUndefined,
       HourlyTick,
       Redeem (JStr ''discord.gift/ABCDEFGHIJKLMNOPQ'') JUndefined JUndefined] fresh_client))
     = [''ABCDEFGHIJKLMNOPQ'', ''ABCDEFGHIJKLMNOPQ'']"
  by (simp add: redeemNitro_gift_text post_def online_env_def fresh_client_def hourly_reset_def)

section \<open>Facts about construction\<close>

lemma first_failure_mem: "first_failure xs = Some e \<Longrightarrow> (True, e) \<in> set xs"
  by (induction xs rule: first_failure.induct) (auto split: if_splits)

lemma first_failure_exists: "(True, e) \<in> set xs \<Longrightarrow> \<exists>e'. first_failure xs = Some e'"
  by (induction xs rule: first_failure.induct) auto

lemma option_checks_errors:
  "(b, e) \<in> set (option_checks env opts) \<Longrightarrow> is_ConfigurationError e"
  by (auto simp: option_checks_def)

lemma shardCount_check:
  "\<not> shardCount_accepted (opts ''shardCount'')
     \<Longrightarrow> (True, invalid_option ''shardCount'') \<in> set (option_checks env opts)"
  by (simp add: option_checks_def shardCount_accepted_def)

lemma empty_shards_check:
  "empty_shard_list (opts ''shards'')
     \<Longrightarrow> (True, DjsRangeError ''CLIENT_INVALID_PROVIDED_SHARDS'') \<in> set (option_checks env opts)"
  by (simp add: option_checks_def empty_shard_list_def)

lemma validateOptions_rejects:
  assumes "empty_shard_list (opts ''shards'') \<or> \<not> shardCount_accepted (opts ''shardCount'')"
  shows "\<exists>e. validateOptions env opts = Inl e
           \<and> (is_ConfigurationError e \<or> Intents_resolve env (opts ''intents'') = Inl e)"
proof (cases "typeof (opts ''intents'') = ''undefined''")
  case True
  then show ?thesis by (simp add: validateOptions_def)
next
  case False
  show ?thesis
  proof (cases "Intents_resolve env (opts ''intents'')")
    case (Inl e)
    then show ?thesis using False by (simp add: validateOptions_def)
  next
    case (Inr i)
    let ?o = "opts(''intents'' := i)"
    have "empty_shard_list (?o ''shards'') \<or> \<not> shardCount_accepted (?o ''shardCount'')"
      using assms by simp
    then obtain e0 where "(True, e0) \<in> set (option_checks env ?o)"
      using shardCount_check [of ?o env] empty_shards_check [of ?o env] by blast
    then obtain e where e: "first_failure (option_checks env ?o) = Some e"
      using first_failure_exists by blast
    then have "is_ConfigurationError e"
      using first_failure_mem option_checks_errors by blast
    then show ?thesis
      using False Inr e by (simp add: validateOptions_def Let_def)
  qed
qed

text \<open>
  C5, as the code has it. When the shard options have been normalised and the shard
  list is present but empty, or the shard count is not a number, is NaN or is below 1,
  the constructor fails: no client is made, so nothing has been requested. The error is
  the one \<^verbatim>\<open>_validateOptions\<close> throws first: one of its option errors, or whatever
  \<^verbatim>\<open>Intents.resolve\<close> throws on the intents.
\<close>

theorem construction_rejects_shard_options:
  assumes "normalize_shards env opts0 = Inr opts"
    and "empty_shard_list (opts ''shards'') \<or> \<not> shardCount_accepted (opts ''shardCount'')"
  shows "\<exists>e. Client_new env opts0 = Inl e
           \<and> validateOptions env opts = Inl e
           \<and> (is_ConfigurationError e \<or> Intents_resolve env (opts ''intents'') = Inl e)"
proof -
  obtain e where "validateOptions env opts = Inl e"
    and "is_ConfigurationError e \<or> Intents_resolve env (opts ''intents'') = Inl e"
    using validateOptions_rejects [OF assms(2)] by blast
  then show ?thesis
    using assms(1) by (simp add: Client_new_def)
qed

text \<open>
  The options of the example, looked up one by one.
\<close>

lemma example_options_at:
  "example_options ''intents'' = JNum (Fin 0)"
  "example_options ''checkUpdate'' = JBool True"
  "example_options ''syncStatus'' = JBool True"
  "example_options ''autoRedeemNitro'' = JBool False"
  "example_options ''captchaService'' = JUndefined"
  "example_options ''captchaKey'' = JUndefined"
  "example_options ''captchaSolver'' = JFun"
  "example_options ''DMSync'' = JBool False"
  "example_options ''patchVoice'' = JBool False"
  "example_options ''password'' = JUndefined"
  "example_options ''usingNewAttachmentAPI'' = JUndefined"
  "example_options ''interactionTimeout'' = JUndefined"
  "example_options ''proxy'' = JStr []"
  "example_options ''shardCount'' = JNum (Fin 1)"
  "example_options ''shards'' = JArr [JNum (Fin 0)]"
  "example_options ''makeCache'' = JFun"
  "example_options ''messageCacheLifetime'' = JNum (Fin 0)"
  "example_options ''messageSweepInterval'' = JNum (Fin 0)"
  "example_options ''sweepers'' = JObj"
  "example_options ''invalidRequestWarningInterval'' = JNum (Fin 0)"
  "example_options ''partials'' = JArr []"
  "example_options ''waitGuildTimeout'' = JNum (Fin 15000)"
  "example_options ''messageCreateEventGuildTimeout'' = JNum (Fin 100)"
  "example_options ''restWsBridgeTimeout'' = JNum (Fin 5000)"
  "example_options ''restRequestTimeout'' = JNum (Fin 15000)"
  "example_options ''restGlobalRateLimit'' = JNum (Fin 0)"
  "example_options ''restSweepInterval'' = JNum (Fin 60)"
  "example_options ''retryLimit'' = JNum (Fin 1)"
  "example_options ''failIfNotExists'' = JBool True"
  "example_options ''userAgentSuffix'' = JArr []"
  "example_options ''rejectOnRateLimit'' = JUndefined"
  by (simp_all add: example_options_def)

lemmas normalize_eval = normalize_shards_def shards_from_data_def shardCount_from_data_def
  shards_by_type_def shards_filtered_def resolve_shard_list_def new_Set_def Set_add_def
  shard_item_ok_iff example_options_at online_env_def Let_def

lemmas validate_eval = validateOptions_def option_checks_def not_boolean_def not_a_number_def
  example_options_at online_env_def Let_def

text \<open>
  The theorem at a shard list with no valid entry, at a shard count of 0 and at a shard
  count that is a string; all other options are valid.
\<close>

theorem construction_rejects_shard_options_witness:
  "Client_new online_env (example_options(''shards'' := JArr [JNum (Fin (- 1)), JStr ''x'']))
     = Inl (DjsRangeError ''CLIENT_INVALID_PROVIDED_SHARDS'')
   \<and> Client_new online_env (example_options(''shardCount'' := JNum (Fin 0)))
     = Inl (invalid_option ''shardCount'')
   \<and> Client_new online_env (example_options(''shardCount'' := JStr ''2''))
     = Inl (invalid_option ''shardCount'')"
proof -
  let ?A = "example_options(''shards'' := JArr [JNum (Fin (- 1)), JStr ''x''])"
  let ?B = "example_options(''shardCount'' := JNum (Fin 0))"
  let ?C = "example_options(''shardCount'' := JStr ''2'')"
  let ?A' = "?A(''shardCount'' := JNum (Fin 2), ''shards'' := JArr [])"
  let ?B' = "?B(''shards'' := JArr [JNum (Fin 0)])"
  let ?C' = "?C(''shards'' := JArr [JNum (Fin 0)])"
  have nA: "normalize_shards online_env ?A = Inr ?A'"
    by (simp add: normalize_eval)
  have nB: "normalize_shards online_env ?B = Inr ?B'"
    by (simp add: normalize_eval)
  have nC: "normalize_shards online_env ?C = Inr ?C'"
    by (simp add: normalize_eval)
  have hA: "empty_shard_list (?A' ''shards'') \<or> \<not> shardCount_accepted (?A' ''shardCount'')"
    by (simp add: empty_shard_list_def)
  have hB: "empty_shard_list (?B' ''shards'') \<or> \<not> shardCount_accepted (?B' ''shardCount'')"
    by (simp add: shardCount_accepted_def)
  have hC: "empty_shard_list (?C' ''shards'') \<or> \<not> shardCount_accepted (?C' ''shardCount'')"
    by (simp add: shardCount_accepted_def)
  have vA: "validateOptions online_env ?A' = Inl (DjsRangeError ''CLIENT_INVALID_PROVIDED_SHARDS'')"
    by (simp add: validate_eval)
  have vB: "validateOptions online_env ?B' = Inl (invalid_option ''shardCount'')"
    by (simp add: validate_eval)
  have vC: "validateOptions online_env ?C' = Inl (invalid_option ''shardCount'')"
    by (simp add: validate_eval)
  have a: "Client_new online_env ?A = Inl (DjsRangeError ''CLIENT_INVALID_PROVIDED_SHARDS'')"
  proof -
    obtain e where "Client_new online_env ?A = Inl e" and "validateOptions online_env ?A' = Inl e"
      using construction_rejects_shard_options [OF nA hA] by blast
    then show ?thesis
      by (simp only: vA sum.inject)
  qed
  have b: "Client_new online_env ?B = Inl (invalid_option ''shardCount'')"
  proof -
    obtain e where "Client_new online_env ?B = Inl e" and "validateOptions online_env ?B' = Inl e"
      using construction_rejects_shard_options [OF nB hB] by blast
    then show ?thesis
      by (simp only: vB sum.inject)
  qed
  have c: "Client_new online_env ?C = Inl (invalid_option ''shardCount'')"
  proof -
    obtain e where "Client_new online_env ?C = Inl e" and "validateOptions online_env ?C' = Inl e"
      using construction_rejects_shard_options [OF nC hC] by blast
    then show ?thesis
      by (simp only: vC sum.inject)
  qed
  show ?thesis
    using a b c by blast
qed

text \<open>
  C5, as stated, fails: 1.5 is not a positive integer, it is still the shard count
  after normalisation, and the constructor returns a client, because line 1072 tests
  \<^verbatim>\<open>shardCount < 1\<close> and not whether the count is an integer.
\<close>

theorem construction_accepts_fractional_shardCount:
  "\<not> positive_integer (JNum (Fin (3 / 2)))
   \<and> map_sum id (\<lambda>opts. opts ''shardCount'')
        (normalize_shards online_env (example_options(''shardCount'' := JNum (Fin (3 / 2)))))
     = Inr (JNum (Fin (3 / 2)))
   \<and> map_sum id (\<lambda>c. (options c ''shardCount'', options c ''shards'', trace c))
        (Client_new online_env (example_options(''shardCount'' := JNum (Fin (3 / 2)))))
     = Inr (JNum (Fin (3 / 2)), JArr [JNum (Fin 0)], [])"
proof -
  let ?D = "example_options(''shardCount'' := JNum (Fin (3 / 2)))"
  let ?D' = "?D(''shards'' := JArr [JNum (Fin 0)])"
  have a: "\<not> positive_integer (JNum (Fin (3 / 2)))"
    by code_simp
  have n: "normalize_shards online_env ?D = Inr ?D'"
    by (simp add: normalize_eval)
  have v: "validateOptions online_env ?D' = Inr (?D'(''intents'' := JNum (Fin 0)))"
    by (simp add: validate_eval)
  show ?thesis
    using a by (simp add: Client_new_def n v)
qed

end
